theory Spec2Isabelle
  imports Complex_Main
begin

section \<open>Sunset Brawler: the combat simulation core\<close>

text \<open>
  A shallow embedding of the TypeScript sources \<^verbatim>\<open>types.ts\<close>, \<^verbatim>\<open>Entity.ts\<close>,
  \<^verbatim>\<open>Player.ts\<close>, \<^verbatim>\<open>Enemy.ts\<close> and \<^verbatim>\<open>GameEngine.ts\<close>.

  Numbers. A TypeScript \<^verbatim>\<open>number\<close> is a double. Hit points, timers, frame cursors, the
  score, the streak and the phase only ever hold integers (every literal assigned to,
  added to or subtracted from them in the sources is an integer), so they are \<^typ>\<open>int\<close>.
  Positions, velocities, scales, speeds and radii are \<^typ>\<open>real\<close>: rounding of doubles is
  not modelled, and no entity is ever constructed with scale 0 (the scales of the sources
  are 1, 2 and 2.5), so division by \<^verbatim>\<open>scale\<close> is the real division.

  Objects. A class is a record and a subclass is a record extension, so the methods of
  \<^verbatim>\<open>Entity\<close> are functions on every extension of the entity record. A method that mutates
  \<^verbatim>\<open>this\<close> returns the updated record, together with its return value when it has one.

  Randomness. \<^verbatim>\<open>Math.random()\<close> is a source \<open>R :: nat \<Rightarrow> real\<close> of draws and a counter of
  the draws made so far; each call reads \<open>R\<close> at the counter and advances it.

  Rendering (\<^verbatim>\<open>draw\<close>, \<^verbatim>\<open>getColor\<close>), the audio calls and the statistics callback do not
  write any simulation state and are left out.
\<close>

subsection \<open>types.ts\<close>

datatype EntityState =
  IDLE | WALKING | ATTACKING_JAB | ATTACKING_STRAIGHT | WINDING_UP | DODGING | HIT | DEAD

record Rect =
  rect_x :: real
  rect_y :: real
  rect_width :: real
  rect_height :: real

definition PHASE_TARGETS :: "int list" where
  "PHASE_TARGETS = [100, 1000, 3000, 5000, 10000]"

subsection \<open>Entity.ts\<close>

record AnimationConfig =
  frames :: int
  anim_speed :: int
  loop :: bool
  activeFrames :: "int list option"

fun ANIMATION_DATA :: "EntityState \<Rightarrow> AnimationConfig" where
  "ANIMATION_DATA IDLE =
     \<lparr>frames = 4, anim_speed = 12, loop = True, activeFrames = None\<rparr>"
| "ANIMATION_DATA WALKING =
     \<lparr>frames = 6, anim_speed = 8, loop = True, activeFrames = None\<rparr>"
| "ANIMATION_DATA ATTACKING_JAB =
     \<lparr>frames = 4, anim_speed = 5, loop = False, activeFrames = Some [1, 2]\<rparr>"
| "ANIMATION_DATA ATTACKING_STRAIGHT =
     \<lparr>frames = 6, anim_speed = 6, loop = False, activeFrames = Some [2, 3, 4]\<rparr>"
| "ANIMATION_DATA WINDING_UP =
     \<lparr>frames = 3, anim_speed = 10, loop = True, activeFrames = None\<rparr>"
| "ANIMATION_DATA DODGING =
     \<lparr>frames = 4, anim_speed = 5, loop = False, activeFrames = None\<rparr>"
| "ANIMATION_DATA HIT =
     \<lparr>frames = 2, anim_speed = 10, loop = False, activeFrames = None\<rparr>"
| "ANIMATION_DATA DEAD =
     \<lparr>frames = 5, anim_speed = 12, loop = False, activeFrames = None\<rparr>"

text \<open>
  The fields of class \<^verbatim>\<open>Entity\<close>; \<^verbatim>\<open>x\<close> and \<^verbatim>\<open>y\<close> are \<open>posX\<close> and \<open>posY\<close>.
\<close>

record Entity =
  posX :: real
  posY :: real
  width :: real
  height :: real
  hp :: int
  maxHp :: int
  state :: EntityState
  facing :: real
  speed :: real
  scale :: real
  vx :: real
  vy :: real
  stateTimer :: int
  invincibleTimer :: int
  currentFrame :: int
  animationTick :: int

definition getHitbox :: "'a Entity_scheme \<Rightarrow> Rect" where
  "getHitbox e =
     (let w = width e * scale e;
          h = height e * scale e
      in \<lparr>rect_x = posX e - w / 2, rect_y = posY e - h, rect_width = w, rect_height = h\<rparr>)"

definition getAttackHitbox :: "'a Entity_scheme \<Rightarrow> Rect option" where
  "getAttackHitbox e =
     (case activeFrames (ANIMATION_DATA (state e)) of
        None \<Rightarrow> None
      | Some active \<Rightarrow>
          if currentFrame e \<notin> set active then None
          else
            let baseReach = (if state e = ATTACKING_JAB then 35 else 55);
                reach = baseReach * scale e;
                hWidth = reach;
                hHeight = 30 * scale e;
                w = width e * scale e;
                h = height e * scale e
            in Some \<lparr>rect_x = (if facing e = 1 then posX e + w / 4
                                else posX e - w / 4 - hWidth),
                      rect_y = posY e - h * 0.8,
                      rect_width = hWidth,
                      rect_height = hHeight\<rparr>)"

definition setState :: "EntityState \<Rightarrow> 'a Entity_scheme \<Rightarrow> 'a Entity_scheme" where
  "setState newState e =
     (if state e = newState \<and> loop (ANIMATION_DATA (state e)) then e
      else e\<lparr>state := newState, currentFrame := 0, animationTick := 0\<rparr>)"

text \<open>
  \<^verbatim>\<open>takeDamage(amount, knockbackDir)\<close>: the returned flag and the entity afterwards.
\<close>

definition takeDamage :: "int \<Rightarrow> real \<Rightarrow> 'a Entity_scheme \<Rightarrow> bool \<times> 'a Entity_scheme" where
  "takeDamage amount knockbackDir e =
     (if invincibleTimer e > 0 \<or> state e = DEAD then (False, e)
      else
        let e1 = e\<lparr>hp := hp e - amount\<rparr>;
            e2 = setState HIT e1;
            e3 = e2\<lparr>stateTimer := 15, invincibleTimer := 30,
                    vx := knockbackDir * (12 / scale e2)\<rparr>
        in if hp e3 \<le> 0 then (True, setState DEAD (e3\<lparr>hp := 0\<rparr>))
           else (True, e3))"

text \<open>
  \<^verbatim>\<open>Entity.update()\<close>, in the order of the method: the invincibility timer, the
  friction-based physics, the animation cursor, the state timer.
\<close>

definition tickInvincible :: "'a Entity_scheme \<Rightarrow> 'a Entity_scheme" where
  "tickInvincible e =
     (if invincibleTimer e > 0 then e\<lparr>invincibleTimer := invincibleTimer e - 1\<rparr> else e)"

definition applyPhysics :: "'a Entity_scheme \<Rightarrow> 'a Entity_scheme" where
  "applyPhysics e =
     (let e1 = e\<lparr>posX := posX e + vx e, posY := posY e + vy e\<rparr>
      in e1\<lparr>vx := vx e1 * 0.8, vy := vy e1 * 0.8\<rparr>)"

definition advanceAnimation :: "'a Entity_scheme \<Rightarrow> 'a Entity_scheme" where
  "advanceAnimation e =
     (let config = ANIMATION_DATA (state e);
          e1 = e\<lparr>animationTick := animationTick e + 1\<rparr>
      in if animationTick e1 \<ge> anim_speed config then
           let e2 = e1\<lparr>animationTick := 0, currentFrame := currentFrame e1 + 1\<rparr>
           in if currentFrame e2 \<ge> frames config then
                (if loop config then e2\<lparr>currentFrame := 0\<rparr>
                 else
                   let e3 = e2\<lparr>currentFrame := frames config - 1\<rparr>
                   in if state e3 \<noteq> DEAD then setState IDLE e3 else e3)
              else e2
         else e1)"

definition tickStateTimer :: "'a Entity_scheme \<Rightarrow> 'a Entity_scheme" where
  "tickStateTimer e =
     (if stateTimer e > 0 then
        let e1 = e\<lparr>stateTimer := stateTimer e - 1\<rparr>
        in if stateTimer e1 = 0 \<and> state e1 = HIT then setState IDLE e1 else e1
      else e)"

definition Entity_update :: "'a Entity_scheme \<Rightarrow> 'a Entity_scheme" where
  "Entity_update e = tickStateTimer (advanceAnimation (applyPhysics (tickInvincible e)))"

subsection \<open>Player.ts\<close>

record Player = Entity +
  specialUnlocked :: bool
  specialCooldownTimer :: int
  isChargingSpecial :: bool
  specialChargeTimer :: int
  specialAttackActive :: bool
  specialAttackRadius :: real
  specialActiveTimer :: int

definition SPECIAL_COOLDOWN_MAX :: int where "SPECIAL_COOLDOWN_MAX = 60 * 15"
definition SPECIAL_CHARGE_MAX :: int where "SPECIAL_CHARGE_MAX = 45"
definition SPECIAL_ACTIVE_MAX :: int where "SPECIAL_ACTIVE_MAX = 60"
definition MAX_SPECIAL_RADIUS :: real where "MAX_SPECIAL_RADIUS = 250"

text \<open>\<^verbatim>\<open>new Player(x, y)\<close>: the field initialisers of \<^verbatim>\<open>Entity\<close>, 100 hit points, speed 5.5.\<close>

definition Player_new :: "real \<Rightarrow> real \<Rightarrow> Player" where
  "Player_new px py =
     \<lparr>posX = px, posY = py, width = 40, height = 60, hp = 100, maxHp = 100, state = IDLE,
      facing = 1, speed = 5.5, scale = 1, vx = 0, vy = 0, stateTimer = 0,
      invincibleTimer = 0, currentFrame = 0, animationTick = 0,
      specialUnlocked = False, specialCooldownTimer = 0, isChargingSpecial = False,
      specialChargeTimer = 0, specialAttackActive = False, specialAttackRadius = 0,
      specialActiveTimer = 0\<rparr>"

text \<open>
  \<^verbatim>\<open>Player.update()\<close>: the lifecycle of the special attack (the \<^verbatim>\<open>if\<close> \<^verbatim>\<open>else if\<close> at the
  head of the method), then \<^verbatim>\<open>super.update()\<close>, then the cooldown.
\<close>

definition specialLifecycle :: "Player \<Rightarrow> Player" where
  "specialLifecycle p =
     (if isChargingSpecial p then
        let q = p\<lparr>specialChargeTimer := specialChargeTimer p - 1\<rparr>
        in if specialChargeTimer q \<le> 0 then
             q\<lparr>isChargingSpecial := False, specialAttackActive := True,
               specialAttackRadius := 0, specialActiveTimer := SPECIAL_ACTIVE_MAX\<rparr>
           else q
      else if specialAttackActive p then
        let q = p\<lparr>specialAttackRadius := specialAttackRadius p
                    + MAX_SPECIAL_RADIUS / (real_of_int SPECIAL_ACTIVE_MAX / 1.5)\<rparr>;
            q1 = (if specialAttackRadius q > MAX_SPECIAL_RADIUS
                  then q\<lparr>specialAttackRadius := MAX_SPECIAL_RADIUS\<rparr> else q);
            q2 = q1\<lparr>specialActiveTimer := specialActiveTimer q1 - 1\<rparr>
        in if specialActiveTimer q2 \<le> 0 then
             q2\<lparr>specialAttackActive := False, specialAttackRadius := 0\<rparr>
           else q2
      else p)"

definition Player_update :: "Player \<Rightarrow> Player" where
  "Player_update p =
     (let p1 = specialLifecycle p;
          p2 = Entity_update p1
      in if specialCooldownTimer p2 > 0
         then p2\<lparr>specialCooldownTimer := specialCooldownTimer p2 - 1\<rparr> else p2)"

text \<open>
  \<^verbatim>\<open>Player.handleInput(keys, onSpecial)\<close>. \<open>keys\<close> is the set of key codes held down; the
  callback \<^verbatim>\<open>onSpecial\<close> only plays a sound.
\<close>

definition handleInput :: "string set \<Rightarrow> Player \<Rightarrow> Player" where
  "handleInput keys p =
     (if state p = HIT \<or> state p = DEAD \<or> isChargingSpecial p \<or> specialAttackActive p then p
      else if ''KeyE'' \<in> keys \<and> specialUnlocked p \<and> specialCooldownTimer p = 0 then
        (setState IDLE
           (p\<lparr>isChargingSpecial := True, specialChargeTimer := SPECIAL_CHARGE_MAX\<rparr>))
          \<lparr>specialCooldownTimer := SPECIAL_COOLDOWN_MAX\<rparr>
      else if ''KeyL'' \<in> keys \<and> state p \<noteq> DODGING then
        (setState DODGING p)\<lparr>invincibleTimer := 35\<rparr>
      else if state p = DODGING then
        p\<lparr>posX := posX p + facing p * speed p * 2.8\<rparr>
      else
        let isAttacking = (state p = ATTACKING_JAB \<or> state p = ATTACKING_STRAIGHT)
        in if \<not> isAttacking \<and> ''KeyJ'' \<in> keys then setState ATTACKING_JAB p
           else if \<not> isAttacking \<and> ''KeyK'' \<in> keys then setState ATTACKING_STRAIGHT p
           else
             let dy = (if ''KeyW'' \<in> keys then - 1 else 0) + (if ''KeyS'' \<in> keys then 1 else 0);
                 dx = (if ''KeyA'' \<in> keys then - 1 else 0) + (if ''KeyD'' \<in> keys then 1 else (0::real))
             in if dx \<noteq> 0 \<or> dy \<noteq> 0 then
                  let p1 = (if dx \<noteq> 0 \<and> \<not> isAttacking
                            then p\<lparr>facing := (if dx > 0 then 1 else - 1)\<rparr> else p);
                      len = sqrt (dx * dx + dy * dy);
                      p2 = p1\<lparr>posX := posX p1 + (dx / len) * speed p1,
                              posY := posY p1 + (dy / len) * speed p1\<rparr>
                  in if \<not> isAttacking then setState WALKING p2 else p2
                else if \<not> isAttacking then setState IDLE p else p)"

subsection \<open>Arrays\<close>

text \<open>
  \<^verbatim>\<open>Array.prototype.forEach\<close> on a dense array reads the length once, before the first
  call, and then visits the indices \<open>0, 1, ...\<close> below that length in order, calling the
  callback at an index only if the array (as the earlier callbacks left it) still has
  that index. \<open>len\<close> reads the length of the array out of the state the callback mutates.
\<close>

definition forEach :: "('s \<Rightarrow> nat) \<Rightarrow> (nat \<Rightarrow> 's \<Rightarrow> 's) \<Rightarrow> 's \<Rightarrow> 's" where
  "forEach len body s = fold (\<lambda>k t. if k < len t then body k t else t) [0..<len s] s"

text \<open>\<^verbatim>\<open>xs.splice(i, 1)\<close>: the elements after index \<open>i\<close> move down by one.\<close>

definition splice1 :: "nat \<Rightarrow> 'a list \<Rightarrow> 'a list" where
  "splice1 i xs = take i xs @ drop (Suc i) xs"

subsection \<open>Enemy.ts\<close>

record Projectile =
  proj_x :: real
  proj_y :: real
  proj_vx :: real
  proj_vy :: real
  life :: int

text \<open>
  The fields of class \<^verbatim>\<open>Enemy\<close>. The field \<^verbatim>\<open>target\<close> is a reference to the player
  object: every enemy is constructed by the engine and handed \<^verbatim>\<open>this.player\<close> at once
  (\<^verbatim>\<open>setTarget\<close>), and the engine never replaces its player. The methods that read
  \<^verbatim>\<open>this.target\<close> therefore take the player as it is at the time of the call.
\<close>

record Enemy = Entity +
  aiTick :: int
  color :: string
  isBoss :: bool
  windupTimer :: int
  nextAttackType :: EntityState
  dodgeCooldown :: int
  blastCooldown :: int
  isChargingBlast :: bool
  blastChargeTimer :: int
  blastActive :: bool
  blastRadius :: real
  projectiles :: "Projectile list"
  projectileCooldown :: int
  isCastingProjectiles :: bool
  castTimer :: int

definition MAX_BLAST_RADIUS :: real where "MAX_BLAST_RADIUS = 180"

text \<open>
  \<^verbatim>\<open>new Enemy(x, y, color, isBoss, hp, scale)\<close>; \<open>r\<close> is the draw of \<^verbatim>\<open>Math.random()\<close> that
  sets the speed.
\<close>

definition Enemy_new :: "real \<Rightarrow> real \<Rightarrow> real \<Rightarrow> string \<Rightarrow> bool \<Rightarrow> int \<Rightarrow> real \<Rightarrow> Enemy" where
  "Enemy_new r ex ey col boss hp0 scale0 =
     \<lparr>posX = ex, posY = ey, width = 40, height = 60, hp = hp0, maxHp = hp0, state = IDLE,
      facing = 1, speed = (1.5 + r * 2) * (if boss then 0.7 else 1), scale = scale0,
      vx = 0, vy = 0, stateTimer = 0, invincibleTimer = 0, currentFrame = 0,
      animationTick = 0,
      aiTick = 0, color = col, isBoss = boss, windupTimer = 0,
      nextAttackType = ATTACKING_JAB, dodgeCooldown = 0, blastCooldown = 0,
      isChargingBlast = False, blastChargeTimer = 0, blastActive = False, blastRadius = 0,
      projectiles = [], projectileCooldown = 0, isCastingProjectiles = False,
      castTimer = 0\<rparr>"

text \<open>
  \<^verbatim>\<open>Enemy.updateAI()\<close>, with the random source \<open>R\<close> and the number \<open>n\<close> of draws made
  before the call; it returns the enemy and the number of draws made after it. A draw
  is made only where the source reaches the call of \<^verbatim>\<open>Math.random()\<close>.
\<close>

definition updateAI ::
  "(nat \<Rightarrow> real) \<Rightarrow> nat \<Rightarrow> 'a Entity_scheme \<Rightarrow> Enemy \<Rightarrow> Enemy \<times> nat" where
  "updateAI R n tgt e =
     (if state e = HIT \<or> state e = DEAD \<or> state e = DODGING then (e, n)
      else if state e = ATTACKING_JAB \<or> state e = ATTACKING_STRAIGHT \<or> state e = WINDING_UP
              \<or> isChargingBlast e \<or> blastActive e \<or> isCastingProjectiles e then (e, n)
      else
        let e1 = e\<lparr>aiTick := aiTick e + 1\<rparr>;
            dx = posX tgt - posX e1;
            dy = posY tgt - posY e1;
            dist = sqrt (dx * dx + dy * dy);
            e2 = e1\<lparr>facing := (if dx > 0 then 1 else - 1)\<rparr>;
            canCast = (isBoss e2 \<and> maxHp e2 \<ge> 500 \<and> projectileCooldown e2 = 0 \<and> dist > 150)
        in if canCast \<and> R n < 0.02 then
             (setState IDLE (e2\<lparr>isCastingProjectiles := True, castTimer := 60\<rparr>), n + 1)
           else
             let n1 = (if canCast then n + 1 else n);
                 canBlast = (isBoss e2 \<and> blastCooldown e2 = 0 \<and> dist < 180)
             in if canBlast \<and> R n1 < 0.02 then
                  (setState IDLE (e2\<lparr>isChargingBlast := True, blastChargeTimer := 60\<rparr>),
                   n1 + 1)
                else
                  let n2 = (if canBlast then n1 + 1 else n1)
                  in if dist > 80 * scale e2 then
                       (let e3 = setState WALKING e2
                        in e3\<lparr>posX := posX e3 + (dx / dist) * speed e3,
                              posY := posY e3 + (dy / dist) * speed e3\<rparr>, n2)
                     else
                       let e3 = setState IDLE e2
                       in if aiTick e3 mod (if isBoss e3 then 20 else 40) = 0 then
                            ((setState WINDING_UP
                                (e3\<lparr>nextAttackType :=
                                       (if R n2 > 0.4 then ATTACKING_JAB
                                        else ATTACKING_STRAIGHT)\<rparr>))
                               \<lparr>windupTimer := 15\<rparr>, n2 + 1)
                          else (e3, n2))"

text \<open>\<^verbatim>\<open>Enemy.tryDodge()\<close>: the returned flag, the enemy and the draws made.\<close>

definition tryDodge :: "(nat \<Rightarrow> real) \<Rightarrow> nat \<Rightarrow> Enemy \<Rightarrow> bool \<times> Enemy \<times> nat" where
  "tryDodge R n e =
     (if dodgeCooldown e > 0 \<or> state e = DEAD \<or> state e = DODGING then (False, e, n)
      else if R n < (if isBoss e then 0.35 else 0.12) then
        (True,
         (setState DODGING e)\<lparr>stateTimer := 25, invincibleTimer := 25, dodgeCooldown := 120\<rparr>,
         n + 1)
      else (False, e, n + 1))"

text \<open>
  The direction of a new projectile is \<^verbatim>\<open>cos\<close> and \<^verbatim>\<open>sin\<close> of
  \<^verbatim>\<open>Math.atan2(dy, dx)\<close>: the unit vector along \<open>(dx, dy)\<close>, and \<open>(1, 0)\<close> at the origin,
  where \<^verbatim>\<open>atan2\<close> is 0.
\<close>

definition cos_atan2 :: "real \<Rightarrow> real \<Rightarrow> real" where
  "cos_atan2 dy dx = (if dx = 0 \<and> dy = 0 then 1 else dx / sqrt (dx * dx + dy * dy))"

definition sin_atan2 :: "real \<Rightarrow> real \<Rightarrow> real" where
  "sin_atan2 dy dx = (if dx = 0 \<and> dy = 0 then 0 else dy / sqrt (dx * dx + dy * dy))"

text \<open>
  The callback of \<^verbatim>\<open>this.projectiles.forEach\<close> in \<^verbatim>\<open>Enemy.update()\<close>. What it does to the
  projectile \<open>p\<close> itself: move, age, and home on the target while more than 60 ticks of
  life remain.
\<close>

definition advanceProjectile :: "'a Entity_scheme \<Rightarrow> Projectile \<Rightarrow> Projectile" where
  "advanceProjectile tgt p =
     (let p1 = p\<lparr>proj_x := proj_x p + proj_vx p, proj_y := proj_y p + proj_vy p,
                 life := life p - 1\<rparr>
      in if life p1 > 60 then
           let tx = posX tgt - proj_x p1;
               ty = (posY tgt - 30) - proj_y p1;
               dist = sqrt (tx * tx + ty * ty)
           in p1\<lparr>proj_vx := (proj_vx p1 * 0.96) + (tx / dist) * 0.45,
                  proj_vy := (proj_vy p1 * 0.96) + (ty / dist) * 0.45\<rparr>
         else p1)"

text \<open>
  The callback at index \<open>idx\<close>: the projectile there is advanced in place and, when its
  life is used up, spliced out of the array.
\<close>

definition moveProjectile :: "'a Entity_scheme \<Rightarrow> nat \<Rightarrow> Enemy \<Rightarrow> Enemy" where
  "moveProjectile tgt idx e =
     (let p = advanceProjectile tgt (projectiles e ! idx);
          e1 = e\<lparr>projectiles := (projectiles e)[idx := p]\<rparr>
      in if life p \<le> 0 then e1\<lparr>projectiles := splice1 idx (projectiles e1)\<rparr> else e1)"

text \<open>
  \<^verbatim>\<open>Enemy.update()\<close>, in the order of the method: the dodge cooldown, the dodge
  displacement and the wind-up; the blast cycle; the projectile cycle; the existing
  projectiles; \<^verbatim>\<open>super.update()\<close>.
\<close>

definition dodgeAndWindup :: "Enemy \<Rightarrow> Enemy" where
  "dodgeAndWindup e =
     (let e1 = (if dodgeCooldown e > 0 then e\<lparr>dodgeCooldown := dodgeCooldown e - 1\<rparr> else e);
          e2 = (if state e1 = DODGING
                then e1\<lparr>posX := posX e1 + facing e1 * (speed e1 * 2.8)\<rparr> else e1)
      in if state e2 = WINDING_UP then
           let q = e2\<lparr>windupTimer := windupTimer e2 - 1\<rparr>
           in if windupTimer q \<le> 0 then setState (nextAttackType q) q else q
         else e2)"

definition blastCycle :: "Enemy \<Rightarrow> Enemy" where
  "blastCycle e =
     (let e1 = (if isChargingBlast e then
                  let q = e\<lparr>blastChargeTimer := blastChargeTimer e - 1\<rparr>
                  in if blastChargeTimer q \<le> 0 then
                       q\<lparr>isChargingBlast := False, blastActive := True, blastRadius := 0,
                         blastCooldown := 350\<rparr>
                     else q
                else e);
          e2 = (if blastActive e1 then
                  let q = e1\<lparr>blastRadius := blastRadius e1
                              + (MAX_BLAST_RADIUS * scale e1) / 60\<rparr>
                  in if blastRadius q > MAX_BLAST_RADIUS * scale q then
                       q\<lparr>blastActive := False, blastRadius := 0\<rparr>
                     else q
                else e1)
      in if blastCooldown e2 > 0 then e2\<lparr>blastCooldown := blastCooldown e2 - 1\<rparr> else e2)"

definition projectileCycle :: "'a Entity_scheme \<Rightarrow> Enemy \<Rightarrow> Enemy" where
  "projectileCycle tgt e =
     (let e1 = (if isCastingProjectiles e then
                  let q = e\<lparr>castTimer := castTimer e - 1\<rparr>;
                      q1 = (if castTimer q mod 20 = 0 \<and> castTimer q > 0 then
                              q\<lparr>projectiles := projectiles q @
                                  [\<lparr>proj_x = posX q, proj_y = posY q - 45,
                                    proj_vx = cos_atan2 (posY tgt - posY q) (posX tgt - posX q) * 7,
                                    proj_vy = sin_atan2 (posY tgt - posY q) (posX tgt - posX q) * 7,
                                    life = 140\<rparr>]\<rparr>
                            else q)
                  in if castTimer q1 \<le> 0 then
                       q1\<lparr>isCastingProjectiles := False, projectileCooldown := 450\<rparr>
                     else q1
                else e)
      in if projectileCooldown e1 > 0
         then e1\<lparr>projectileCooldown := projectileCooldown e1 - 1\<rparr> else e1)"

definition moveProjectiles :: "'a Entity_scheme \<Rightarrow> Enemy \<Rightarrow> Enemy" where
  "moveProjectiles tgt e = forEach (\<lambda>t. length (projectiles t)) (moveProjectile tgt) e"

definition Enemy_update :: "'a Entity_scheme \<Rightarrow> Enemy \<Rightarrow> Enemy" where
  "Enemy_update tgt e =
     Entity_update (moveProjectiles tgt (projectileCycle tgt (blastCycle (dodgeAndWindup e))))"

subsection \<open>GameEngine.ts\<close>

text \<open>
  The simulation fields of class \<^verbatim>\<open>GameEngine\<close>. \<open>canvasWidth\<close> is \<^verbatim>\<open>this.canvas.width\<close>
  (the canvas belongs to the page) and \<open>randomCalls\<close> counts the draws of
  \<^verbatim>\<open>Math.random()\<close> made so far.
\<close>

record GameEngine =
  canvasWidth :: real
  player :: Player
  enemies :: "Enemy list"
  chaos :: int
  phase :: int
  streak :: int
  multiplier :: int
  isPaused :: bool
  isGameOver :: bool
  isVictory :: bool
  isTransitioning :: bool
  bossSequenceActive :: bool
  bossSpawnedForCurrentPhase :: bool
  hitstopTimer :: int
  randomCalls :: nat

definition checkCollision :: "Rect \<Rightarrow> Rect \<Rightarrow> bool" where
  "checkCollision r1 r2 \<longleftrightarrow>
     rect_x r1 < rect_x r2 + rect_width r2 \<and> rect_x r1 + rect_width r1 > rect_x r2 \<and>
     rect_y r1 < rect_y r2 + rect_height r2 \<and> rect_y r1 + rect_height r1 > rect_y r2"

text \<open>\<^verbatim>\<open>this.enemies.filter(e => e.state !== EntityState.DEAD).length\<close>\<close>

definition activeCount :: "GameEngine \<Rightarrow> nat" where
  "activeCount g = length (filter (\<lambda>e. state e \<noteq> DEAD) (enemies g))"

text \<open>
  \<^verbatim>\<open>spawnReplacement()\<close> draws the side, then the height, then (in the constructor of
  the enemy) the speed.
\<close>

definition spawnReplacement :: "(nat \<Rightarrow> real) \<Rightarrow> GameEngine \<Rightarrow> GameEngine" where
  "spawnReplacement R g =
     (let n = randomCalls g;
          side = (if R n > 0.5 then - 150 else 950);
          enemy = Enemy_new (R (n + 2)) side (250 + R (n + 1) * 330)
                    (if phase g \<ge> 4 then ''#a855f7'' else ''#ef4444'') False 30 1
      in g\<lparr>enemies := enemies g @ [enemy], randomCalls := n + 3\<rparr>)"

definition spawnEnemies :: "(nat \<Rightarrow> real) \<Rightarrow> GameEngine \<Rightarrow> GameEngine" where
  "spawnEnemies R g =
     (if isTransitioning g \<or> bossSequenceActive g \<or> isVictory g then g
      else
        let count = (if phase g \<ge> 3 then 5 else 2 + phase g)
        in ((spawnReplacement R) ^^ nat count) g)"

text \<open>
  The loop \<^verbatim>\<open>while (active enemies < 5) this.spawnReplacement()\<close> of \<^verbatim>\<open>spawnBoss\<close>. Every
  round adds an enemy that is not dead, so the loop ends.
\<close>

function spawnUntilFive :: "(nat \<Rightarrow> real) \<Rightarrow> GameEngine \<Rightarrow> GameEngine" where
  "spawnUntilFive R g =
     (if activeCount g < 5 then spawnUntilFive R (spawnReplacement R g) else g)"
  by pat_completeness auto
termination
  by (relation "measure (\<lambda>(R, g). 5 - activeCount g)")
     (auto simp: activeCount_def spawnReplacement_def Enemy_new_def Let_def)

declare spawnUntilFive.simps [simp del]

definition spawnBoss :: "(nat \<Rightarrow> real) \<Rightarrow> int \<Rightarrow> real \<Rightarrow> GameEngine \<Rightarrow> GameEngine" where
  "spawnBoss R hp0 scale0 g =
     (let g1 = g\<lparr>bossSequenceActive := True, bossSpawnedForCurrentPhase := True\<rparr>;
          g2 = g1\<lparr>enemies := filter (\<lambda>e. state e = DEAD) (enemies g1)\<rparr>;
          boss = Enemy_new (R (randomCalls g2)) (canvasWidth g2 + 120) 450 ''#fde68a'' True
                   hp0 scale0;
          g3 = g2\<lparr>enemies := enemies g2 @ [boss], randomCalls := randomCalls g2 + 1\<rparr>
      in spawnUntilFive R g3)"

text \<open>
  \<^verbatim>\<open>new GameEngine(canvas, onStatsUpdate)\<close> for a canvas of width \<open>w\<close>. The ten clouds and
  palms of the backdrop take five draws each.
\<close>

definition GameEngine_new :: "(nat \<Rightarrow> real) \<Rightarrow> real \<Rightarrow> GameEngine" where
  "GameEngine_new R w =
     (let g = \<lparr>canvasWidth = w, player = Player_new 100 450, enemies = [], chaos = 0,
               phase = 1, streak = 0, multiplier = 1, isPaused = False, isGameOver = False,
               isVictory = False, isTransitioning = False, bossSequenceActive = False,
               bossSpawnedForCurrentPhase = False, hitstopTimer = 0, randomCalls = 0\<rparr>;
          g1 = spawnEnemies R g
      in g1\<lparr>randomCalls := randomCalls g1 + 50\<rparr>)"

definition togglePause :: "GameEngine \<Rightarrow> GameEngine" where
  "togglePause g =
     (if isGameOver g \<or> isVictory g then g else g\<lparr>isPaused := \<not> isPaused g\<rparr>)"

text \<open>\<^verbatim>\<open>PHASE_TARGETS[this.phase - 1] || 99999\<close>: no entry of the table is 0.\<close>

definition phaseTarget :: "int \<Rightarrow> int" where
  "phaseTarget ph =
     (if 1 \<le> ph \<and> ph \<le> int (length PHASE_TARGETS) then PHASE_TARGETS ! nat (ph - 1)
      else 99999)"

text \<open>The sections of \<^verbatim>\<open>GameEngine.update()\<close>, in the order of the source.\<close>

text \<open>Progression logic.\<close>

definition progression :: "(nat \<Rightarrow> real) \<Rightarrow> GameEngine \<Rightarrow> GameEngine" where
  "progression R g =
     (let target = phaseTarget (phase g)
      in if chaos g \<ge> target \<and> \<not> bossSpawnedForCurrentPhase g \<and> \<not> isTransitioning g then
           (if phase g = 3 then spawnBoss R 200 2 g
            else if phase g = 5 then spawnBoss R 500 2.5 g
            else g\<lparr>isTransitioning := True\<rparr>)
         else g)"

text \<open>Handle screen transition.\<close>

definition screenTransition :: "(nat \<Rightarrow> real) \<Rightarrow> GameEngine \<Rightarrow> GameEngine" where
  "screenTransition R g =
     (if isTransitioning g \<and> activeCount g = 0 then
        (if posX (player g) > canvasWidth g - 40 then
           let g1 = g\<lparr>phase := phase g + 1\<rparr>;
               g2 = g1\<lparr>player := (player g1)\<lparr>posX := 20\<rparr>\<rparr>;
               g3 = g2\<lparr>isTransitioning := False, bossSpawnedForCurrentPhase := False\<rparr>;
               g4 = g3\<lparr>player := (player g3)
                        \<lparr>hp := min (maxHp (player g3)) (hp (player g3) + 50)\<rparr>\<rparr>
           in spawnEnemies R g4
         else g)
      else g)"

text \<open>Ground boundaries, then \<^verbatim>\<open>this.player.update()\<close>.\<close>

definition groundBoundaries :: "GameEngine \<Rightarrow> GameEngine" where
  "groundBoundaries g =
     (let p = player g;
          p1 = p\<lparr>posX := max 20 (min (if isTransitioning g then 850 else 780) (posX p))\<rparr>;
          p2 = p1\<lparr>posY := max 250 (min 580 (posY p1))\<rparr>
      in g\<lparr>player := Player_update p2\<rparr>)"

text \<open>
  Player combat collision (normal attacks): the callback of \<^verbatim>\<open>this.enemies.forEach\<close> at
  index \<open>idx\<close>, for the attack hitbox \<open>pAttack\<close> taken before the loop.
\<close>

definition playerAttackEnemy ::
  "(nat \<Rightarrow> real) \<Rightarrow> Rect \<Rightarrow> nat \<Rightarrow> GameEngine \<Rightarrow> GameEngine" where
  "playerAttackEnemy R pAttack idx g =
     (let enemy = enemies g ! idx
      in if state enemy \<noteq> DEAD \<and> checkCollision pAttack (getHitbox enemy) then
           let (dodged, enemy1, n1) = tryDodge R (randomCalls g) enemy;
               g1 = g\<lparr>enemies := (enemies g)[idx := enemy1], randomCalls := n1\<rparr>
           in if \<not> dodged then
                let dmg = (if state (player g1) = ATTACKING_JAB then 9 else 18);
                    (applied, enemy2) = takeDamage dmg (facing (player g1)) enemy1;
                    g2 = g1\<lparr>enemies := (enemies g1)[idx := enemy2]\<rparr>
                in if applied then g2\<lparr>hitstopTimer := 8, streak := streak g2 + 1\<rparr> else g2
              else g1
         else g)"

definition playerCombat :: "(nat \<Rightarrow> real) \<Rightarrow> GameEngine \<Rightarrow> GameEngine" where
  "playerCombat R g =
     (case getAttackHitbox (player g) of
        None \<Rightarrow> g
      | Some pAttack \<Rightarrow> forEach (\<lambda>t. length (enemies t)) (playerAttackEnemy R pAttack) g)"

text \<open>Player special collision (radial blast).\<close>

definition specialHitEnemy :: "nat \<Rightarrow> GameEngine \<Rightarrow> GameEngine" where
  "specialHitEnemy idx g =
     (let enemy = enemies g ! idx
      in if state enemy \<noteq> DEAD then
           let dist = sqrt ((posX enemy - posX (player g))\<^sup>2 + (posY enemy - posY (player g))\<^sup>2)
           in if dist < specialAttackRadius (player g) then
                let (applied, enemy1) =
                      takeDamage 15 (if posX enemy > posX (player g) then 1 else - 1) enemy
                in g\<lparr>enemies := (enemies g)[idx := enemy1]\<rparr>
              else g
         else g)"

definition playerSpecial :: "GameEngine \<Rightarrow> GameEngine" where
  "playerSpecial g =
     (if specialAttackActive (player g)
      then forEach (\<lambda>t. length (enemies t)) specialHitEnemy g else g)"

text \<open>
  Enemy AI and combat update: the callback of the last \<^verbatim>\<open>this.enemies.forEach\<close> at index
  \<open>idx\<close>, in its five parts. The enemy of the callback stays at index \<open>idx\<close> until the last
  part splices it out.
\<close>

text \<open>
  \<^verbatim>\<open>enemy.updateAI(); enemy.update();\<close> on one enemy, paired with the count of random
  draws, for the player \<open>tgt\<close> as it is in this frame.
\<close>

definition enemyFrame :: "(nat \<Rightarrow> real) \<Rightarrow> Player \<Rightarrow> Enemy \<times> nat \<Rightarrow> Enemy \<times> nat" where
  "enemyFrame R tgt en =
     (let (enemy1, n1) = updateAI R (snd en) tgt (fst en)
      in (Enemy_update tgt enemy1, n1))"

definition enemyAct :: "(nat \<Rightarrow> real) \<Rightarrow> nat \<Rightarrow> GameEngine \<Rightarrow> GameEngine" where
  "enemyAct R idx g =
     (let (enemy2, n1) = enemyFrame R (player g) (enemies g ! idx, randomCalls g)
      in g\<lparr>enemies := (enemies g)[idx := enemy2], randomCalls := n1\<rparr>)"

text \<open>The attack hitbox of the enemy against the hitbox of the player.\<close>

definition enemyMelee :: "nat \<Rightarrow> GameEngine \<Rightarrow> GameEngine" where
  "enemyMelee idx g =
     (let enemy = enemies g ! idx
      in case getAttackHitbox enemy of
           None \<Rightarrow> g
         | Some eAttack \<Rightarrow>
             if checkCollision eAttack (getHitbox (player g)) then
               let (applied, player1) = takeDamage 6 (facing enemy) (player g);
                   g1 = g\<lparr>player := player1\<rparr>
               in if applied then g1\<lparr>hitstopTimer := 8, streak := 0\<rparr> else g1
             else g)"

text \<open>Boss special collision (phase 3: blast).\<close>

definition bossBlast :: "nat \<Rightarrow> GameEngine \<Rightarrow> GameEngine" where
  "bossBlast idx g =
     (let enemy = enemies g ! idx
      in if isBoss enemy \<and> blastActive enemy then
           let dist = sqrt ((posX (player g) - posX enemy)\<^sup>2 + (posY (player g) - posY enemy)\<^sup>2)
           in if dist < blastRadius enemy \<and> state (player g) \<noteq> DODGING then
                g\<lparr>player := snd (takeDamage 10 (if posX (player g) > posX enemy then 1 else - 1)
                                   (player g))\<rparr>
              else g
         else g)"

text \<open>
  Boss special collision (phase 5: void projectiles): the callback of
  \<^verbatim>\<open>enemy.projectiles.forEach\<close> at index \<open>pIdx\<close>, on the player and the enemy.
\<close>

definition projectileHit :: "nat \<Rightarrow> Player \<times> Enemy \<Rightarrow> Player \<times> Enemy" where
  "projectileHit pIdx pe =
     (let pl = fst pe;
          enemy = snd pe;
          p = projectiles enemy ! pIdx;
          pDist = sqrt ((posX pl - proj_x p)\<^sup>2 + ((posY pl - 30) - proj_y p)\<^sup>2)
      in if pDist < 25 \<and> state pl \<noteq> DODGING then
           (snd (takeDamage 15 (if proj_vx p > 0 then 1 else - 1) pl),
            enemy\<lparr>projectiles := splice1 pIdx (projectiles enemy)\<rparr>)
         else pe)"

definition bossProjectiles :: "nat \<Rightarrow> GameEngine \<Rightarrow> GameEngine" where
  "bossProjectiles idx g =
     (let (player1, enemy1) =
            forEach (\<lambda>pe. length (projectiles (snd pe))) projectileHit
              (player g, enemies g ! idx)
      in g\<lparr>player := player1, enemies := (enemies g)[idx := enemy1]\<rparr>)"

text \<open>
  Cleanup of dead enemies and the chaos score: the score, the flags of a boss and the
  splice, for the enemy at index \<open>idx\<close>.
\<close>

definition awardAndRemove :: "nat \<Rightarrow> GameEngine \<Rightarrow> GameEngine" where
  "awardAndRemove idx g =
     (let enemy = enemies g ! idx;
          g1 = g\<lparr>chaos := chaos g + (if isBoss enemy then 750 else 20) * multiplier g\<rparr>;
          g2 = (if isBoss enemy then
                  let b = g1\<lparr>bossSequenceActive := False\<rparr>
                  in if phase b = 3 then
                       b\<lparr>player := (player b)\<lparr>specialUnlocked := True\<rparr>,
                         isTransitioning := True\<rparr>
                     else if phase b = 5 then b\<lparr>isVictory := True\<rparr>
                     else b
                else g1)
      in g2\<lparr>enemies := splice1 idx (enemies g2)\<rparr>)"

text \<open>The whole cleanup: a dead enemy whose state timer has run out is removed and replaced.\<close>

definition reap :: "(nat \<Rightarrow> real) \<Rightarrow> nat \<Rightarrow> GameEngine \<Rightarrow> GameEngine" where
  "reap R idx g =
     (let enemy = enemies g ! idx
      in if state enemy = DEAD \<and> stateTimer enemy = 0 then
           let g3 = awardAndRemove idx g;
               targetCount = (if phase g3 \<ge> 3 then 5 else 3)
           in if \<not> isTransitioning g3 \<and> \<not> isVictory g3 \<and> activeCount g3 < targetCount
              then spawnReplacement R g3 else g3
         else g)"

definition enemyStep :: "(nat \<Rightarrow> real) \<Rightarrow> nat \<Rightarrow> GameEngine \<Rightarrow> GameEngine" where
  "enemyStep R idx g =
     reap R idx (bossProjectiles idx (bossBlast idx (enemyMelee idx (enemyAct R idx g))))"

definition enemyLoop :: "(nat \<Rightarrow> real) \<Rightarrow> GameEngine \<Rightarrow> GameEngine" where
  "enemyLoop R g = forEach (\<lambda>t. length (enemies t)) (enemyStep R) g"

text \<open>
  \<^verbatim>\<open>GameEngine.update()\<close>: one call of the frame loop, with the keys held down.
\<close>

definition GameEngine_update :: "string set \<Rightarrow> (nat \<Rightarrow> real) \<Rightarrow> GameEngine \<Rightarrow> GameEngine" where
  "GameEngine_update keys R g =
     (if isGameOver g \<or> isVictory g \<or> isPaused g then g
      else if hitstopTimer g > 0 then g\<lparr>hitstopTimer := hitstopTimer g - 1\<rparr>
      else
        let g1 = g\<lparr>player := handleInput keys (player g)\<rparr>
        in if hp (player g1) \<le> 0 \<and> \<not> isGameOver g1 then
             g1\<lparr>isGameOver := True, player := setState DEAD (player g1)\<rparr>
           else
             let g2 = progression R g1;
                 g3 = screenTransition R g2;
                 g4 = groundBoundaries g3;
                 g5 = playerCombat R g4;
                 g6 = playerSpecial g5;
                 g7 = enemyLoop R g6
             in g7\<lparr>multiplier := min 10 (1 + streak g7 div 5)\<rparr>)"

text \<open>
  A session: the engine as constructed, then any sequence of frames (each with the keys
  held down at that frame) and presses of the pause key.
\<close>

datatype Event = Frame "string set" | TogglePause

definition handleEvent :: "(nat \<Rightarrow> real) \<Rightarrow> Event \<Rightarrow> GameEngine \<Rightarrow> GameEngine" where
  "handleEvent R ev g =
     (case ev of Frame keys \<Rightarrow> GameEngine_update keys R g | TogglePause \<Rightarrow> togglePause g)"

definition session :: "(nat \<Rightarrow> real) \<Rightarrow> real \<Rightarrow> Event list \<Rightarrow> GameEngine" where
  "session R w evs = fold (handleEvent R) evs (GameEngine_new R w)"

section \<open>Properties of the simulation\<close>

subsection \<open>Predicates and scenarios\<close>

text \<open>
  The health invariant of one actor: health lies between 0 and the maximum, and is 0
  exactly in state \<open>DEAD\<close>.
\<close>

definition actorOK :: "'a Entity_scheme \<Rightarrow> bool" where
  "actorOK e \<longleftrightarrow> 0 \<le> hp e \<and> hp e \<le> maxHp e \<and> (hp e = 0 \<longleftrightarrow> state e = DEAD)"

text \<open>The health invariant of every actor of the engine: the player and the whole roster.\<close>

definition allActorsOK :: "GameEngine \<Rightarrow> bool" where
  "allActorsOK g \<longleftrightarrow> actorOK (player g) \<and> (\<forall>e \<in> set (enemies g). actorOK e)"

text \<open>
  The invariant that the engine maintains, one fact stronger: the attack an enemy has
  telegraphed is never \<open>DEAD\<close> (it is a jab or a straight), so the end of a wind-up cannot
  put a living enemy into state \<open>DEAD\<close>.
\<close>

definition enemyOK :: "Enemy \<Rightarrow> bool" where
  "enemyOK e \<longleftrightarrow> actorOK e \<and> nextAttackType e \<noteq> DEAD"

definition engineOK :: "GameEngine \<Rightarrow> bool" where
  "engineOK g \<longleftrightarrow> actorOK (player g) \<and> list_all enemyOK (enemies g)"

text \<open>
  The special attack. \<open>canTrigger keys p\<close>: \<^verbatim>\<open>handleInput\<close> reaches the trigger of the special
  and takes it. \<open>afterTrigger keys p k\<close>: the player \<open>k\<close> calls of \<^verbatim>\<open>Player.update()\<close> after
  the call of \<^verbatim>\<open>handleInput\<close> that triggered.
\<close>

definition canTrigger :: "string set \<Rightarrow> Player \<Rightarrow> bool" where
  "canTrigger keys p \<longleftrightarrow>
     state p \<noteq> HIT \<and> state p \<noteq> DEAD \<and> \<not> isChargingSpecial p \<and> \<not> specialAttackActive p \<and>
     ''KeyE'' \<in> keys \<and> specialUnlocked p \<and> specialCooldownTimer p = 0"

definition afterTrigger :: "string set \<Rightarrow> Player \<Rightarrow> nat \<Rightarrow> Player" where
  "afterTrigger keys p k = (Player_update ^^ k) (handleInput keys p)"

text \<open>A player as constructed, with the special unlocked.\<close>

definition demoPlayer :: Player where
  "demoPlayer = (Player_new 100 450)\<lparr>specialUnlocked := True\<rparr>"

text \<open>
  One enemy over a run of frames. In each frame the engine calls \<^verbatim>\<open>updateAI\<close> and
  \<^verbatim>\<open>update\<close> on it, with the player as it is in that frame and the count of draws
  reached in that frame.
\<close>

definition enemyFrames :: "(nat \<Rightarrow> real) \<Rightarrow> (Player \<times> nat) list \<Rightarrow> Enemy \<Rightarrow> Enemy" where
  "enemyFrames R fs e = fold (\<lambda>(tgt, n) t. fst (enemyFrame R tgt (t, n))) fs e"

text \<open>
  What the callback \<open>specialHitEnemy\<close> does to its enemy, for the player \<open>pl\<close>: the flag
  returned by \<^verbatim>\<open>takeDamage\<close> (false when it was not called) and the enemy afterwards.
\<close>

definition specialOnEnemy :: "Player \<Rightarrow> Enemy \<Rightarrow> bool \<times> Enemy" where
  "specialOnEnemy pl enemy =
     (if state enemy \<noteq> DEAD then
        let dist = sqrt ((posX enemy - posX pl)\<^sup>2 + (posY enemy - posY pl)\<^sup>2)
        in if dist < specialAttackRadius pl
           then takeDamage 15 (if posX enemy > posX pl then 1 else - 1) enemy
           else (False, enemy)
      else (False, enemy))"

text \<open>
  One frame in which the special is active, seen from one enemy: the area check of the
  special against the player \<open>fst f\<close>, then the enemy's own frame (\<open>snd f\<close> is \<open>None\<close> when the
  enemy loop passes over the enemy in this frame). \<open>specialHits\<close> counts the frames of a
  run in which the special damaged the enemy.
\<close>

definition specialFrame ::
  "(nat \<Rightarrow> real) \<Rightarrow> Player \<times> (Player \<times> nat) option \<Rightarrow> Enemy \<Rightarrow> bool \<times> Enemy" where
  "specialFrame R f e =
     (let (applied, e1) = specialOnEnemy (fst f) e
      in (applied,
          case snd f of None \<Rightarrow> e1 | Some (tgt, n) \<Rightarrow> fst (enemyFrame R tgt (e1, n))))"

fun specialHits ::
  "(nat \<Rightarrow> real) \<Rightarrow> (Player \<times> (Player \<times> nat) option) list \<Rightarrow> Enemy \<Rightarrow> nat" where
  "specialHits R [] e = 0"
| "specialHits R (f # fs) e =
     (let (applied, e1) = specialFrame R f e
      in (if applied then 1 else 0) + specialHits R fs e1)"

text \<open>An enemy as \<^verbatim>\<open>spawnReplacement\<close> constructs it, and a player whose special is active.\<close>

definition freshEnemy :: Enemy where
  "freshEnemy = Enemy_new 0 300 450 ''#ef4444'' False 30 1"

definition blastingPlayer :: Player where
  "blastingPlayer = (Player_new 300 450)\<lparr>specialUnlocked := True, specialAttackActive := True,
     specialAttackRadius := 100, specialActiveTimer := 44\<rparr>"

subsection \<open>Auxiliary facts\<close>

text \<open>The steps of \<^verbatim>\<open>Entity.update()\<close> leave the fields of the subclasses alone.\<close>

lemma Entity_steps_player [simp]:
  "specialUnlocked (tickInvincible p) = specialUnlocked p"
  "specialCooldownTimer (tickInvincible p) = specialCooldownTimer p"
  "isChargingSpecial (tickInvincible p) = isChargingSpecial p"
  "specialChargeTimer (tickInvincible p) = specialChargeTimer p"
  "specialAttackActive (tickInvincible p) = specialAttackActive p"
  "specialAttackRadius (tickInvincible p) = specialAttackRadius p"
  "specialActiveTimer (tickInvincible p) = specialActiveTimer p"
  "specialUnlocked (applyPhysics p) = specialUnlocked p"
  "specialCooldownTimer (applyPhysics p) = specialCooldownTimer p"
  "isChargingSpecial (applyPhysics p) = isChargingSpecial p"
  "specialChargeTimer (applyPhysics p) = specialChargeTimer p"
  "specialAttackActive (applyPhysics p) = specialAttackActive p"
  "specialAttackRadius (applyPhysics p) = specialAttackRadius p"
  "specialActiveTimer (applyPhysics p) = specialActiveTimer p"
  "specialUnlocked (advanceAnimation p) = specialUnlocked p"
  "specialCooldownTimer (advanceAnimation p) = specialCooldownTimer p"
  "isChargingSpecial (advanceAnimation p) = isChargingSpecial p"
  "specialChargeTimer (advanceAnimation p) = specialChargeTimer p"
  "specialAttackActive (advanceAnimation p) = specialAttackActive p"
  "specialAttackRadius (advanceAnimation p) = specialAttackRadius p"
  "specialActiveTimer (advanceAnimation p) = specialActiveTimer p"
  "specialUnlocked (tickStateTimer p) = specialUnlocked p"
  "specialCooldownTimer (tickStateTimer p) = specialCooldownTimer p"
  "isChargingSpecial (tickStateTimer p) = isChargingSpecial p"
  "specialChargeTimer (tickStateTimer p) = specialChargeTimer p"
  "specialAttackActive (tickStateTimer p) = specialAttackActive p"
  "specialAttackRadius (tickStateTimer p) = specialAttackRadius p"
  "specialActiveTimer (tickStateTimer p) = specialActiveTimer p"
  by (simp_all add: tickInvincible_def applyPhysics_def advanceAnimation_def tickStateTimer_def
      Let_def setState_def)

lemma Entity_steps_enemy [simp]:
  "nextAttackType (tickInvincible e) = nextAttackType e"
  "dodgeCooldown (tickInvincible e) = dodgeCooldown e"
  "nextAttackType (applyPhysics e) = nextAttackType e"
  "dodgeCooldown (applyPhysics e) = dodgeCooldown e"
  "nextAttackType (advanceAnimation e) = nextAttackType e"
  "dodgeCooldown (advanceAnimation e) = dodgeCooldown e"
  "nextAttackType (tickStateTimer e) = nextAttackType e"
  "dodgeCooldown (tickStateTimer e) = dodgeCooldown e"
  by (simp_all add: tickInvincible_def applyPhysics_def advanceAnimation_def tickStateTimer_def
      Let_def setState_def)

lemma Entity_steps_more [simp]:
  "Entity.more (tickInvincible e) = Entity.more e"
  "Entity.more (applyPhysics e) = Entity.more e"
  "Entity.more (advanceAnimation e) = Entity.more e"
  "Entity.more (tickStateTimer e) = Entity.more e"
  by (simp_all add: tickInvincible_def applyPhysics_def advanceAnimation_def tickStateTimer_def
      Let_def setState_def)

lemma Entity_steps_invincible [simp]:
  "invincibleTimer (tickInvincible e) =
     (if invincibleTimer e > 0 then invincibleTimer e - 1 else invincibleTimer e)"
  "invincibleTimer (applyPhysics e) = invincibleTimer e"
  "invincibleTimer (advanceAnimation e) = invincibleTimer e"
  "invincibleTimer (tickStateTimer e) = invincibleTimer e"
  by (simp_all add: tickInvincible_def applyPhysics_def advanceAnimation_def tickStateTimer_def
      Let_def setState_def)

lemma Entity_steps_cursor [simp]:
  "state (tickInvincible e) = state e"
  "currentFrame (tickInvincible e) = currentFrame e"
  "animationTick (tickInvincible e) = animationTick e"
  "state (applyPhysics e) = state e"
  "currentFrame (applyPhysics e) = currentFrame e"
  "animationTick (applyPhysics e) = animationTick e"
  "state e \<noteq> HIT \<Longrightarrow> state (tickStateTimer e) = state e"
  "state e \<noteq> HIT \<Longrightarrow> currentFrame (tickStateTimer e) = currentFrame e"
  "state e \<noteq> HIT \<Longrightarrow> animationTick (tickStateTimer e) = animationTick e"
  by (simp_all add: tickInvincible_def applyPhysics_def tickStateTimer_def Let_def)

lemma advanceAnimation_dodging:
  assumes "state e = DODGING" "0 \<le> animationTick e" "0 \<le> currentFrame e"
  shows "state (advanceAnimation e) = (if animationTick e \<ge> 4 \<and> currentFrame e \<ge> 3 then IDLE else DODGING)"
    "animationTick (advanceAnimation e) = (if animationTick e \<ge> 4 then 0 else animationTick e + 1)"
    "currentFrame (advanceAnimation e) =
       (if animationTick e \<ge> 4 then (if currentFrame e \<ge> 3 then 0 else currentFrame e + 1)
        else currentFrame e)"
  using assms by (auto simp: advanceAnimation_def Let_def setState_def)

text \<open>The health invariant.\<close>

lemma forEach_preserves:
  assumes "P s" and "\<And>k t. P t \<Longrightarrow> k < len t \<Longrightarrow> P (body k t)"
  shows "P (forEach len body s)"
proof -
  have "P t \<Longrightarrow> P (fold (\<lambda>k t. if k < len t then body k t else t) ks t)" for ks t
    by (induction ks arbitrary: t) (simp_all add: assms(2))
  then show ?thesis unfolding forEach_def using assms(1) by blast
qed

lemma setState_vitals [simp]:
  "state (setState s e) = s" "hp (setState s e) = hp e" "maxHp (setState s e) = maxHp e"
  by (simp_all add: setState_def)

lemma tickInvincible_vitals [simp]:
  "state (tickInvincible e) = state e" "hp (tickInvincible e) = hp e"
  "maxHp (tickInvincible e) = maxHp e"
  by (simp_all add: tickInvincible_def)

lemma applyPhysics_vitals [simp]:
  "state (applyPhysics e) = state e" "hp (applyPhysics e) = hp e"
  "maxHp (applyPhysics e) = maxHp e"
  by (simp_all add: applyPhysics_def Let_def)

lemma advanceAnimation_vitals [simp]:
  "(state (advanceAnimation e) = DEAD) = (state e = DEAD)" "hp (advanceAnimation e) = hp e"
  "maxHp (advanceAnimation e) = maxHp e"
  by (simp_all add: advanceAnimation_def Let_def)

lemma tickStateTimer_vitals [simp]:
  "(state (tickStateTimer e) = DEAD) = (state e = DEAD)" "hp (tickStateTimer e) = hp e"
  "maxHp (tickStateTimer e) = maxHp e"
  by (auto simp: tickStateTimer_def Let_def)

lemma Entity_update_vitals [simp]:
  "(state (Entity_update e) = DEAD) = (state e = DEAD)" "hp (Entity_update e) = hp e"
  "maxHp (Entity_update e) = maxHp e"
  by (simp_all add: Entity_update_def)

lemma takeDamage_actorOK: "actorOK e \<Longrightarrow> 0 \<le> amount \<Longrightarrow> actorOK (snd (takeDamage amount dir e))"
  by (auto simp: actorOK_def takeDamage_def Let_def)

lemma specialLifecycle_vitals [simp]:
  "state (specialLifecycle p) = state p" "hp (specialLifecycle p) = hp p"
  "maxHp (specialLifecycle p) = maxHp p"
  by (simp_all add: specialLifecycle_def Let_def)

lemma Player_update_vitals [simp]:
  "(state (Player_update p) = DEAD) = (state p = DEAD)" "hp (Player_update p) = hp p"
  "maxHp (Player_update p) = maxHp p"
  by (simp_all add: Player_update_def Let_def)

lemma handleInput_vitals [simp]:
  "(state (handleInput keys p) = DEAD) = (state p = DEAD)" "hp (handleInput keys p) = hp p"
  "maxHp (handleInput keys p) = maxHp p"
  by (simp_all add: handleInput_def Let_def)

lemma updateAI_vitals [simp]:
  "(state (fst (updateAI R n tgt e)) = DEAD) = (state e = DEAD)"
  "hp (fst (updateAI R n tgt e)) = hp e"
  "maxHp (fst (updateAI R n tgt e)) = maxHp e"
  by (simp_all add: updateAI_def Let_def)

lemma updateAI_nextAttackType [simp]:
  "nextAttackType e \<noteq> DEAD \<Longrightarrow> nextAttackType (fst (updateAI R n tgt e)) \<noteq> DEAD"
  by (simp add: updateAI_def Let_def setState_def)

lemma tryDodge_vitals [simp]:
  "(state (fst (snd (tryDodge R n e))) = DEAD) = (state e = DEAD)"
  "hp (fst (snd (tryDodge R n e))) = hp e"
  "maxHp (fst (snd (tryDodge R n e))) = maxHp e"
  "nextAttackType (fst (snd (tryDodge R n e))) = nextAttackType e"
  by (simp_all add: tryDodge_def Let_def setState_def)

lemma moveProjectile_only:
  "moveProjectile tgt idx e = e\<lparr>projectiles := projectiles (moveProjectile tgt idx e)\<rparr>"
  by (simp add: moveProjectile_def Let_def)

lemma moveProjectiles_only:
  "moveProjectiles tgt e = e\<lparr>projectiles := projectiles (moveProjectiles tgt e)\<rparr>"
proof -
  have "(\<lambda>t. t = e\<lparr>projectiles := projectiles t\<rparr>)
          (forEach (\<lambda>t. length (projectiles t)) (moveProjectile tgt) e)"
  proof (rule forEach_preserves)
    show "e = e\<lparr>projectiles := projectiles e\<rparr>" by simp
  next
    fix k t assume t: "t = e\<lparr>projectiles := projectiles t\<rparr>"
    have "moveProjectile tgt k t = t\<lparr>projectiles := projectiles (moveProjectile tgt k t)\<rparr>"
      by (rule moveProjectile_only)
    also have "\<dots> = e\<lparr>projectiles := projectiles (moveProjectile tgt k t)\<rparr>"
      by (subst t) simp
    finally show "moveProjectile tgt k t = e\<lparr>projectiles := projectiles (moveProjectile tgt k t)\<rparr>" .
  qed
  then show ?thesis by (simp add: moveProjectiles_def)
qed

lemma dodgeAndWindup_vitals [simp]:
  "nextAttackType e \<noteq> DEAD \<Longrightarrow> (state (dodgeAndWindup e) = DEAD) = (state e = DEAD)"
  "hp (dodgeAndWindup e) = hp e" "maxHp (dodgeAndWindup e) = maxHp e"
  "nextAttackType (dodgeAndWindup e) = nextAttackType e"
  by (simp_all add: dodgeAndWindup_def Let_def setState_def)

lemma blastCycle_vitals [simp]:
  "state (blastCycle e) = state e" "hp (blastCycle e) = hp e" "maxHp (blastCycle e) = maxHp e"
  "nextAttackType (blastCycle e) = nextAttackType e"
  by (simp_all add: blastCycle_def Let_def)

lemma projectileCycle_vitals [simp]:
  "state (projectileCycle tgt e) = state e" "hp (projectileCycle tgt e) = hp e"
  "maxHp (projectileCycle tgt e) = maxHp e"
  "nextAttackType (projectileCycle tgt e) = nextAttackType e"
  by (simp_all add: projectileCycle_def Let_def)

lemma moveProjectiles_vitals [simp]:
  "state (moveProjectiles tgt e) = state e" "hp (moveProjectiles tgt e) = hp e"
  "maxHp (moveProjectiles tgt e) = maxHp e"
  "nextAttackType (moveProjectiles tgt e) = nextAttackType e"
  by (subst moveProjectiles_only, simp)+

lemma Entity_update_more [simp]: "Entity.more (Entity_update e) = Entity.more e"
  by (simp add: Entity_update_def)

lemma Enemy_update_vitals [simp]:
  "nextAttackType e \<noteq> DEAD \<Longrightarrow> (state (Enemy_update tgt e) = DEAD) = (state e = DEAD)"
  "hp (Enemy_update tgt e) = hp e" "maxHp (Enemy_update tgt e) = maxHp e"
  by (simp_all add: Enemy_update_def)

lemma actorOK_cong: "hp e' = hp e \<Longrightarrow> maxHp e' = maxHp e \<Longrightarrow> (state e' = DEAD) = (state e = DEAD)
   \<Longrightarrow> actorOK e \<Longrightarrow> actorOK e'"
  by (simp add: actorOK_def)

lemma enemyOK_update: "k < length es \<Longrightarrow> list_all enemyOK es \<Longrightarrow> enemyOK e \<Longrightarrow> list_all enemyOK (es[k := e])"
  by (auto simp: list_all_iff dest!: set_update_subset_insert[THEN subsetD])

lemma enemyOK_nth: "k < length es \<Longrightarrow> list_all enemyOK es \<Longrightarrow> enemyOK (es ! k)"
  by (simp add: list_all_length)

lemma enemyOK_splice1: "list_all enemyOK es \<Longrightarrow> list_all enemyOK (splice1 k es)"
  by (auto simp: splice1_def list_all_iff dest: in_set_takeD in_set_dropD)

lemma Enemy_new_OK: "0 < hp0 \<Longrightarrow> enemyOK (Enemy_new r ex ey col boss hp0 sc)"
  by (simp add: enemyOK_def actorOK_def Enemy_new_def)

lemma spawnReplacement_OK: "engineOK g \<Longrightarrow> engineOK (spawnReplacement R g)"
  by (simp add: engineOK_def spawnReplacement_def Let_def Enemy_new_OK)

lemma spawnReplacement_player [simp]: "player (spawnReplacement R g) = player g"
  by (simp add: spawnReplacement_def Let_def)

lemma spawnReplacements_OK: "engineOK g \<Longrightarrow> engineOK ((spawnReplacement R ^^ k) g)"
  by (induction k) (simp_all add: spawnReplacement_OK)

lemma spawnEnemies_OK: "engineOK g \<Longrightarrow> engineOK (spawnEnemies R g)"
  by (simp add: spawnEnemies_def Let_def spawnReplacements_OK)

lemma spawnUntilFive_OK: "engineOK g \<Longrightarrow> engineOK (spawnUntilFive R g)"
proof (induction R g rule: spawnUntilFive.induct)
  case (1 R g)
  show ?case
  proof (cases "activeCount g < 5")
    case True
    then show ?thesis using 1 by (subst spawnUntilFive.simps) (simp add: spawnReplacement_OK)
  next
    case False
    then show ?thesis using 1 by (subst spawnUntilFive.simps) simp
  qed
qed

lemma spawnBoss_OK: "engineOK g \<Longrightarrow> 0 < hp0 \<Longrightarrow> engineOK (spawnBoss R hp0 sc g)"
  unfolding spawnBoss_def Let_def
  by (rule spawnUntilFive_OK) (simp add: engineOK_def Enemy_new_OK list_all_iff)

lemma progression_OK: "engineOK g \<Longrightarrow> engineOK (progression R g)"
  by (simp add: progression_def Let_def spawnBoss_OK) (simp add: engineOK_def)

lemma screenTransition_OK:
  assumes "engineOK g" "0 < hp (player g)"
  shows "engineOK (screenTransition R g)"
proof (cases "isTransitioning g \<and> activeCount g = 0 \<and> posX (player g) > canvasWidth g - 40")
  case True
  have "engineOK (spawnEnemies R (g\<lparr>phase := phase g + 1, isTransitioning := False,
                bossSpawnedForCurrentPhase := False,
                player := (player g)\<lparr>posX := 20,
                     hp := min (maxHp (player g)) (hp (player g) + 50)\<rparr>\<rparr>))"
    by (rule spawnEnemies_OK) (use assms in \<open>auto simp: engineOK_def actorOK_def\<close>)
  then show ?thesis using True by (simp add: screenTransition_def Let_def)
next
  case False
  then show ?thesis using assms(1) by (auto simp: screenTransition_def Let_def)
qed

lemma groundBoundaries_OK: "engineOK g \<Longrightarrow> engineOK (groundBoundaries g)"
  by (simp add: groundBoundaries_def Let_def engineOK_def actorOK_def)

lemma tryDodge_enemyOK: "enemyOK e \<Longrightarrow> enemyOK (fst (snd (tryDodge R n e)))"
  by (simp add: enemyOK_def actorOK_def)

lemma takeDamage_enemyOK: "enemyOK e \<Longrightarrow> 0 \<le> amount \<Longrightarrow> enemyOK (snd (takeDamage amount dir e))"
  using takeDamage_actorOK[of e amount dir]
  by (simp add: enemyOK_def) (simp add: takeDamage_def Let_def setState_def)

lemma playerAttackEnemy_OK:
  assumes "engineOK g" "idx < length (enemies g)"
  shows "engineOK (playerAttackEnemy R pAttack idx g)"
proof -
  let ?e = "enemies g ! idx"
  obtain d e1 n1 where td: "tryDodge R (randomCalls g) ?e = (d, e1, n1)"
    by (cases "tryDodge R (randomCalls g) ?e") auto
  obtain a e2 where dm: "takeDamage (if state (player g) = ATTACKING_JAB then 9 else 18)
        (facing (player g)) e1 = (a, e2)"
    by (cases "takeDamage (if state (player g) = ATTACKING_JAB then 9 else 18)
        (facing (player g)) e1") auto
  have e0: "enemyOK ?e" using assms by (simp add: engineOK_def enemyOK_nth)
  have e1: "enemyOK e1" using tryDodge_enemyOK[OF e0, of R "randomCalls g"] td by simp
  have e2: "enemyOK e2"
    using takeDamage_enemyOK[OF e1, of "if state (player g) = ATTACKING_JAB then 9 else 18" "facing (player g)"] dm
    by simp
  show ?thesis
    using assms e1 e2 td dm
    by (simp add: playerAttackEnemy_def Let_def engineOK_def enemyOK_update)
qed

lemma playerCombat_OK: "engineOK g \<Longrightarrow> engineOK (playerCombat R g)"
  by (auto simp: playerCombat_def split: option.splits
      intro!: forEach_preserves[where P = engineOK] playerAttackEnemy_OK)

lemma specialHitEnemy_OK:
  assumes "engineOK g" "idx < length (enemies g)"
  shows "engineOK (specialHitEnemy idx g)"
proof -
  let ?e = "enemies g ! idx"
  have e0: "enemyOK ?e" using assms by (simp add: engineOK_def enemyOK_nth)
  have "enemyOK (snd (takeDamage 15 d ?e))" for d
    using takeDamage_enemyOK[OF e0, of 15 d] by simp
  then show ?thesis
    using assms
    by (simp add: specialHitEnemy_def Let_def engineOK_def enemyOK_update split_beta)
qed

lemma playerSpecial_OK: "engineOK g \<Longrightarrow> engineOK (playerSpecial g)"
  by (auto simp: playerSpecial_def
      intro!: forEach_preserves[where P = engineOK] specialHitEnemy_OK)

lemma Entity_update_nextAttackType [simp]:
  "nextAttackType (Entity_update e) = nextAttackType e"
  by (simp add: Entity_update_def)

lemma enemyAct_OK:
  assumes "engineOK g" "idx < length (enemies g)"
  shows "engineOK (enemyAct R idx g)"
proof -
  let ?e = "enemies g ! idx"
  have e0: "enemyOK ?e" using assms by (simp add: engineOK_def enemyOK_nth)
  have n1: "nextAttackType (fst (updateAI R n tgt ?e)) \<noteq> DEAD" for n and tgt :: Player
    using e0 by (simp add: enemyOK_def)
  have "enemyOK (Enemy_update tgt (fst (updateAI R n tgt ?e)))" for n and tgt :: Player
    using e0 n1[of n tgt] by (simp add: enemyOK_def actorOK_def Enemy_update_def)
  then show ?thesis
    using assms
    by (simp add: enemyAct_def enemyFrame_def Let_def engineOK_def enemyOK_update split_beta)
qed

lemma enemyAct_length [simp]: "length (enemies (enemyAct R idx g)) = length (enemies g)"
  by (simp add: enemyAct_def enemyFrame_def Let_def split_beta)

lemma enemyMelee_OK: "engineOK g \<Longrightarrow> engineOK (enemyMelee idx g)"
  using takeDamage_actorOK[of "player g" 6]
  by (auto simp: enemyMelee_def Let_def engineOK_def split_beta split: option.splits)

lemma enemyMelee_length [simp]: "length (enemies (enemyMelee idx g)) = length (enemies g)"
  by (simp add: enemyMelee_def Let_def split_beta split: option.splits)

lemma bossBlast_OK: "engineOK g \<Longrightarrow> engineOK (bossBlast idx g)"
  using takeDamage_actorOK[of "player g" 10]
  by (auto simp: bossBlast_def Let_def engineOK_def)

lemma bossBlast_length [simp]: "length (enemies (bossBlast idx g)) = length (enemies g)"
  by (simp add: bossBlast_def Let_def)

lemma projectileHit_OK:
  "actorOK (fst pe) \<and> enemyOK (snd pe) \<Longrightarrow>
   actorOK (fst (projectileHit k pe)) \<and> enemyOK (snd (projectileHit k pe))"
  using takeDamage_actorOK[of "fst pe" 15]
  by (auto simp: projectileHit_def Let_def enemyOK_def actorOK_def)

lemma bossProjectiles_OK:
  assumes "engineOK g" "idx < length (enemies g)"
  shows "engineOK (bossProjectiles idx g)"
proof -
  let ?r = "forEach (\<lambda>pe. length (projectiles (snd pe))) projectileHit (player g, enemies g ! idx)"
  have "actorOK (fst ?r) \<and> enemyOK (snd ?r)"
    by (rule forEach_preserves[where P = "\<lambda>pe. actorOK (fst pe) \<and> enemyOK (snd pe)"])
       (use assms in \<open>simp_all add: engineOK_def enemyOK_nth projectileHit_OK\<close>)
  then show ?thesis using assms
    by (simp add: bossProjectiles_def Let_def split_beta engineOK_def enemyOK_update)
qed

lemma bossProjectiles_length [simp]: "length (enemies (bossProjectiles idx g)) = length (enemies g)"
  by (simp add: bossProjectiles_def Let_def split_beta)

lemma awardAndRemove_OK: "engineOK g \<Longrightarrow> engineOK (awardAndRemove idx g)"
  by (simp add: awardAndRemove_def Let_def engineOK_def enemyOK_splice1 actorOK_def)

lemma reap_OK: "engineOK g \<Longrightarrow> engineOK (reap R idx g)"
  by (simp add: reap_def Let_def spawnReplacement_OK awardAndRemove_OK)

lemma enemyStep_OK: "engineOK g \<Longrightarrow> idx < length (enemies g) \<Longrightarrow> engineOK (enemyStep R idx g)"
  by (simp add: enemyStep_def reap_OK bossProjectiles_OK bossBlast_OK enemyMelee_OK enemyAct_OK)

lemma enemyLoop_OK: "engineOK g \<Longrightarrow> engineOK (enemyLoop R g)"
  unfolding enemyLoop_def
  by (rule forEach_preserves[where P = engineOK]) (simp_all add: enemyStep_OK)

lemma progression_player [simp]: "player (progression R g) = player g"
proof -
  have 1: "player (spawnUntilFive R' g') = player g'" for R' g'
    by (induction R' g' rule: spawnUntilFive.induct)
       (subst spawnUntilFive.simps, simp)
  show ?thesis
    by (simp add: progression_def Let_def spawnBoss_def 1)
qed

lemma GameEngine_update_OK: "engineOK g \<Longrightarrow> engineOK (GameEngine_update keys R g)"
proof -
  assume g: "engineOK g"
  let ?g1 = "g\<lparr>player := handleInput keys (player g)\<rparr>"
  have g1: "engineOK ?g1" using g by (simp add: engineOK_def actorOK_def)
  have dead: "engineOK (?g1\<lparr>isGameOver := True, player := setState DEAD (player ?g1)\<rparr>)"
    if "hp (player ?g1) \<le> 0"
    using g that by (auto simp: engineOK_def actorOK_def)
  have live: "engineOK (enemyLoop R (playerSpecial (playerCombat R (groundBoundaries
            (screenTransition R (progression R ?g1))))))"
    if "\<not> hp (player ?g1) \<le> 0"
    using that g1
    by (intro enemyLoop_OK playerSpecial_OK playerCombat_OK groundBoundaries_OK
        screenTransition_OK progression_OK) simp_all
  have fin: "engineOK t \<Longrightarrow> engineOK (t\<lparr>multiplier := m\<rparr>)" for t m
    by (simp add: engineOK_def)
  have hs: "engineOK (g\<lparr>hitstopTimer := h\<rparr>)" for h
    using g by (simp add: engineOK_def)
  show ?thesis
    using g dead live hs
    by (auto simp: GameEngine_update_def Let_def intro!: fin)
qed

lemma togglePause_OK: "engineOK g \<Longrightarrow> engineOK (togglePause g)"
  by (simp add: togglePause_def engineOK_def)

lemma GameEngine_new_OK: "engineOK (GameEngine_new R w)"
proof -
  have "engineOK (spawnEnemies R \<lparr>canvasWidth = w, player = Player_new 100 450, enemies = [], chaos = 0,
               phase = 1, streak = 0, multiplier = 1, isPaused = False, isGameOver = False,
               isVictory = False, isTransitioning = False, bossSequenceActive = False,
               bossSpawnedForCurrentPhase = False, hitstopTimer = 0, randomCalls = 0\<rparr>)"
    by (rule spawnEnemies_OK) (simp add: engineOK_def actorOK_def Player_new_def)
  then show ?thesis by (simp add: GameEngine_new_def Let_def engineOK_def)
qed

lemma session_OK: "engineOK (session R w evs)"
proof -
  have "engineOK g \<Longrightarrow> engineOK (fold (handleEvent R) evs g)" for g
    by (induction evs arbitrary: g)
       (simp_all add: handleEvent_def GameEngine_update_OK togglePause_OK split: Event.splits)
  then show ?thesis by (simp add: session_def GameEngine_new_OK)
qed

text \<open>The lifecycle of the special attack.\<close>

lemmas Entity_update_defs = Entity_update_def tickStateTimer_def advanceAnimation_def
  applyPhysics_def tickInvincible_def Let_def setState_def

lemma Entity_update_special [simp]:
  "specialUnlocked (Entity_update p) = specialUnlocked p"
  "specialCooldownTimer (Entity_update p) = specialCooldownTimer p"
  "isChargingSpecial (Entity_update p) = isChargingSpecial p"
  "specialChargeTimer (Entity_update p) = specialChargeTimer p"
  "specialAttackActive (Entity_update p) = specialAttackActive p"
  "specialAttackRadius (Entity_update p) = specialAttackRadius p"
  "specialActiveTimer (Entity_update p) = specialActiveTimer p"
  by (simp_all add: Entity_update_def)

lemma Player_update_charging:
  assumes "isChargingSpecial p" "specialChargeTimer p > 1"
  shows "isChargingSpecial (Player_update p) \<and> specialChargeTimer (Player_update p) = specialChargeTimer p - 1
     \<and> specialAttackActive (Player_update p) = specialAttackActive p
     \<and> specialAttackRadius (Player_update p) = specialAttackRadius p"
  using assms by (simp add: Player_update_def specialLifecycle_def Let_def)

lemma Player_update_charged:
  assumes "isChargingSpecial p" "specialChargeTimer p \<le> 1"
  shows "\<not> isChargingSpecial (Player_update p) \<and> specialAttackActive (Player_update p)
     \<and> specialAttackRadius (Player_update p) = 0 \<and> specialActiveTimer (Player_update p) = 60"
  using assms by (simp add: Player_update_def specialLifecycle_def Let_def SPECIAL_ACTIVE_MAX_def)

lemma Player_update_active:
  assumes "\<not> isChargingSpecial p" "specialAttackActive p" "specialActiveTimer p > 1"
  shows "\<not> isChargingSpecial (Player_update p) \<and> specialAttackActive (Player_update p)
     \<and> specialAttackRadius (Player_update p) = min 250 (specialAttackRadius p + 6.25)
     \<and> specialActiveTimer (Player_update p) = specialActiveTimer p - 1"
  using assms by (simp add: Player_update_def specialLifecycle_def Let_def SPECIAL_ACTIVE_MAX_def
      MAX_SPECIAL_RADIUS_def min_def)

lemma Player_update_expired:
  assumes "\<not> isChargingSpecial p" "specialAttackActive p" "specialActiveTimer p \<le> 1"
  shows "\<not> isChargingSpecial (Player_update p) \<and> \<not> specialAttackActive (Player_update p)
     \<and> specialAttackRadius (Player_update p) = 0"
  using assms by (simp add: Player_update_def specialLifecycle_def Let_def SPECIAL_ACTIVE_MAX_def
      MAX_SPECIAL_RADIUS_def min_def)

lemma Player_update_cooldown:
  "specialCooldownTimer (Player_update p) =
     (if specialCooldownTimer p > 0 then specialCooldownTimer p - 1 else specialCooldownTimer p)"
  by (simp add: Player_update_def specialLifecycle_def Let_def)

lemma charging_phase:
  assumes "isChargingSpecial p" "specialChargeTimer p = 45" "\<not> specialAttackActive p"
  shows "k < 45 \<Longrightarrow> isChargingSpecial ((Player_update ^^ k) p)
      \<and> specialChargeTimer ((Player_update ^^ k) p) = 45 - int k
      \<and> \<not> specialAttackActive ((Player_update ^^ k) p)"
proof (induction k)
  case 0
  then show ?case using assms by simp
next
  case (Suc k)
  then have ih: "isChargingSpecial ((Player_update ^^ k) p)"
     "specialChargeTimer ((Player_update ^^ k) p) = 45 - int k"
     "\<not> specialAttackActive ((Player_update ^^ k) p)" by simp_all
  have "specialChargeTimer ((Player_update ^^ k) p) > 1" using ih(2) Suc.prems by simp
  from Player_update_charging[OF ih(1) this] ih show ?case by simp
qed

lemma active_start:
  assumes "isChargingSpecial p" "specialChargeTimer p = 45" "\<not> specialAttackActive p"
  shows "\<not> isChargingSpecial ((Player_update ^^ 45) p) \<and> specialAttackActive ((Player_update ^^ 45) p)
     \<and> specialAttackRadius ((Player_update ^^ 45) p) = 0 \<and> specialActiveTimer ((Player_update ^^ 45) p) = 60"
proof -
  have 1: "isChargingSpecial ((Player_update ^^ 44) p)" "specialChargeTimer ((Player_update ^^ 44) p) = 1"
    using charging_phase[OF assms, of 44] by simp_all
  have "(Player_update ^^ 45) p = Player_update ((Player_update ^^ 44) p)"
    by (simp add: numeral_eq_Suc)
  then show ?thesis using Player_update_charged[OF 1(1)] 1(2) by simp
qed

lemma active_phase:
  assumes "\<not> isChargingSpecial p" "specialAttackActive p" "specialAttackRadius p = 0"
     "specialActiveTimer p = 60"
  shows "j < 60 \<Longrightarrow> \<not> isChargingSpecial ((Player_update ^^ j) p)
      \<and> specialAttackActive ((Player_update ^^ j) p)
      \<and> specialAttackRadius ((Player_update ^^ j) p) = min 250 (6.25 * real j)
      \<and> specialActiveTimer ((Player_update ^^ j) p) = 60 - int j"
proof (induction j)
  case 0
  then show ?case using assms by simp
next
  case (Suc j)
  then have ih: "\<not> isChargingSpecial ((Player_update ^^ j) p)"
      "specialAttackActive ((Player_update ^^ j) p)"
      "specialAttackRadius ((Player_update ^^ j) p) = min 250 (6.25 * real j)"
      "specialActiveTimer ((Player_update ^^ j) p) = 60 - int j" by simp_all
  have "specialActiveTimer ((Player_update ^^ j) p) > 1" using ih(4) Suc.prems by simp
  from Player_update_active[OF ih(1,2) this] ih show ?case
    by (simp add: min_def algebra_simps)
qed

lemma active_end:
  assumes "\<not> isChargingSpecial p" "specialAttackActive p" "specialAttackRadius p = 0"
     "specialActiveTimer p = 60"
  shows "\<not> isChargingSpecial ((Player_update ^^ 60) p) \<and> \<not> specialAttackActive ((Player_update ^^ 60) p)
     \<and> specialAttackRadius ((Player_update ^^ 60) p) = 0"
proof -
  have 1: "\<not> isChargingSpecial ((Player_update ^^ 59) p)" "specialAttackActive ((Player_update ^^ 59) p)"
     "specialActiveTimer ((Player_update ^^ 59) p) = 1"
    using active_phase[OF assms, of 59] by simp_all
  have "(Player_update ^^ 60) p = Player_update ((Player_update ^^ 59) p)"
    by (simp add: numeral_eq_Suc)
  then show ?thesis using Player_update_expired[OF 1(1,2)] 1(3) by simp
qed

lemma cooldown_phase:
  "specialCooldownTimer p = c \<Longrightarrow> int k \<le> c \<Longrightarrow> specialCooldownTimer ((Player_update ^^ k) p) = c - int k"
  by (induction k) (simp_all add: Player_update_cooldown)

lemma trigger_fields:
  assumes "canTrigger keys p"
  shows "isChargingSpecial (handleInput keys p)" "specialChargeTimer (handleInput keys p) = 45"
    "\<not> specialAttackActive (handleInput keys p)" "specialCooldownTimer (handleInput keys p) = 900"
    "state (handleInput keys p) = IDLE"
  using assms
  by (simp_all add: canTrigger_def handleInput_def setState_def SPECIAL_CHARGE_MAX_def
      SPECIAL_COOLDOWN_MAX_def)

lemma afterTrigger_charging:
  assumes "canTrigger keys p" "k < 45"
  shows "isChargingSpecial (afterTrigger keys p k) \<and> \<not> specialAttackActive (afterTrigger keys p k)"
  using charging_phase[OF trigger_fields(1,2,3)[OF assms(1)] assms(2)]
  by (simp add: afterTrigger_def)

lemma afterTrigger_active:
  assumes "canTrigger keys p" "j < 60"
  shows "\<not> isChargingSpecial (afterTrigger keys p (45 + j)) \<and>
         specialAttackActive (afterTrigger keys p (45 + j)) \<and>
         specialAttackRadius (afterTrigger keys p (45 + j)) = min 250 (6.25 * real j)"
proof -
  let ?q = "(Player_update ^^ 45) (handleInput keys p)"
  have q: "\<not> isChargingSpecial ?q" "specialAttackActive ?q" "specialAttackRadius ?q = 0"
    "specialActiveTimer ?q = 60"
    using active_start[OF trigger_fields(1,2,3)[OF assms(1)]] by simp_all
  have "afterTrigger keys p (45 + j) = (Player_update ^^ j) ?q"
    by (simp add: afterTrigger_def funpow_add add.commute)
  then show ?thesis using active_phase[OF q assms(2)] by simp
qed

lemma afterTrigger_done:
  assumes "canTrigger keys p"
  shows "\<not> isChargingSpecial (afterTrigger keys p 105) \<and>
         \<not> specialAttackActive (afterTrigger keys p 105) \<and>
         specialAttackRadius (afterTrigger keys p 105) = 0"
proof -
  let ?q = "(Player_update ^^ 45) (handleInput keys p)"
  have q: "\<not> isChargingSpecial ?q" "specialAttackActive ?q" "specialAttackRadius ?q = 0"
    "specialActiveTimer ?q = 60"
    using active_start[OF trigger_fields(1,2,3)[OF assms(1)]] by simp_all
  have "afterTrigger keys p 105 = (Player_update ^^ 60) ?q"
    using funpow_add[of 60 45 Player_update] by (simp add: afterTrigger_def)
  then show ?thesis using active_end[OF q] by simp
qed

lemma demo_canTrigger: "canTrigger {''KeyE''} demoPlayer"
  by (simp add: canTrigger_def demoPlayer_def Player_new_def)

text \<open>The frames of one enemy.\<close>

lemma dodgeAndWindup_timing [simp]:
  "invincibleTimer (dodgeAndWindup e) = invincibleTimer e"
  "stateTimer (dodgeAndWindup e) = stateTimer e"
  "dodgeCooldown (dodgeAndWindup e) = (if dodgeCooldown e > 0 then dodgeCooldown e - 1 else dodgeCooldown e)"
  "state e \<noteq> WINDING_UP \<Longrightarrow> state (dodgeAndWindup e) = state e"
  "state e \<noteq> WINDING_UP \<Longrightarrow> currentFrame (dodgeAndWindup e) = currentFrame e"
  "state e \<noteq> WINDING_UP \<Longrightarrow> animationTick (dodgeAndWindup e) = animationTick e"
  by (simp_all add: dodgeAndWindup_def Let_def setState_def)

lemma blastCycle_timing [simp]:
  "invincibleTimer (blastCycle e) = invincibleTimer e"
  "stateTimer (blastCycle e) = stateTimer e"
  "dodgeCooldown (blastCycle e) = dodgeCooldown e"
  "state (blastCycle e) = state e"
  "currentFrame (blastCycle e) = currentFrame e"
  "animationTick (blastCycle e) = animationTick e"
  by (simp_all add: blastCycle_def Let_def)

lemma projectileCycle_timing [simp]:
  "invincibleTimer (projectileCycle tgt e) = invincibleTimer e"
  "stateTimer (projectileCycle tgt e) = stateTimer e"
  "dodgeCooldown (projectileCycle tgt e) = dodgeCooldown e"
  "state (projectileCycle tgt e) = state e"
  "currentFrame (projectileCycle tgt e) = currentFrame e"
  "animationTick (projectileCycle tgt e) = animationTick e"
  by (simp_all add: projectileCycle_def Let_def)

lemma moveProjectiles_timing [simp]:
  "invincibleTimer (moveProjectiles tgt e) = invincibleTimer e"
  "stateTimer (moveProjectiles tgt e) = stateTimer e"
  "dodgeCooldown (moveProjectiles tgt e) = dodgeCooldown e"
  "state (moveProjectiles tgt e) = state e"
  "currentFrame (moveProjectiles tgt e) = currentFrame e"
  "animationTick (moveProjectiles tgt e) = animationTick e"
  by (subst moveProjectiles_only, simp)+

lemma Entity_update_timing [simp]:
  "invincibleTimer (Entity_update e) =
     (if invincibleTimer e > 0 then invincibleTimer e - 1 else invincibleTimer e)"
  "dodgeCooldown (Entity_update e) = dodgeCooldown e"
  by (simp_all add: Entity_update_def)

lemma updateAI_timing [simp]:
  "invincibleTimer (fst (updateAI R n tgt e)) = invincibleTimer e"
  "dodgeCooldown (fst (updateAI R n tgt e)) = dodgeCooldown e"
  by (simp_all add: updateAI_def Let_def setState_def)

lemma updateAI_committed:
  "state e = DODGING \<or> state e = HIT \<or> state e = DEAD \<Longrightarrow> updateAI R n tgt e = (e, n)"
  by (auto simp: updateAI_def)

lemma enemyFrame_timing:
  "invincibleTimer (fst (enemyFrame R tgt (e, n))) =
     (if invincibleTimer e > 0 then invincibleTimer e - 1 else invincibleTimer e)"
  "dodgeCooldown (fst (enemyFrame R tgt (e, n))) =
     (if dodgeCooldown e > 0 then dodgeCooldown e - 1 else dodgeCooldown e)"
  by (simp_all add: enemyFrame_def split_beta Enemy_update_def)

lemma Entity_update_dodging:
  assumes "state e = DODGING" "0 \<le> animationTick e" "0 \<le> currentFrame e"
  shows "state (Entity_update e) = (if animationTick e \<ge> 4 \<and> currentFrame e \<ge> 3 then IDLE else DODGING)"
    "animationTick (Entity_update e) = (if animationTick e \<ge> 4 then 0 else animationTick e + 1)"
    "currentFrame (Entity_update e) =
       (if animationTick e \<ge> 4 then (if currentFrame e \<ge> 3 then 0 else currentFrame e + 1)
        else currentFrame e)"
  using assms advanceAnimation_dodging [of "applyPhysics (tickInvincible e)"]
  by (simp_all add: Entity_update_def)

lemma enemyFrame_dodging:
  assumes "state e = DODGING" "0 \<le> animationTick e" "0 \<le> currentFrame e"
  shows "state (fst (enemyFrame R tgt (e, n))) = (if animationTick e \<ge> 4 \<and> currentFrame e \<ge> 3 then IDLE else DODGING)"
    "animationTick (fst (enemyFrame R tgt (e, n))) = (if animationTick e \<ge> 4 then 0 else animationTick e + 1)"
    "currentFrame (fst (enemyFrame R tgt (e, n))) =
       (if animationTick e \<ge> 4 then (if currentFrame e \<ge> 3 then 0 else currentFrame e + 1)
        else currentFrame e)"
proof -
  let ?d = "moveProjectiles tgt (projectileCycle tgt (blastCycle (dodgeAndWindup e)))"
  have d: "state ?d = DODGING" "animationTick ?d = animationTick e" "currentFrame ?d = currentFrame e"
    using assms by simp_all
  have f: "fst (enemyFrame R tgt (e, n)) = Entity_update ?d"
    using assms(1) by (simp add: enemyFrame_def updateAI_committed Enemy_update_def)
  show "state (fst (enemyFrame R tgt (e, n))) = (if animationTick e \<ge> 4 \<and> currentFrame e \<ge> 3 then IDLE else DODGING)"
    "animationTick (fst (enemyFrame R tgt (e, n))) = (if animationTick e \<ge> 4 then 0 else animationTick e + 1)"
    "currentFrame (fst (enemyFrame R tgt (e, n))) =
       (if animationTick e \<ge> 4 then (if currentFrame e \<ge> 3 then 0 else currentFrame e + 1)
        else currentFrame e)"
    unfolding f using Entity_update_dodging[of ?d] d assms by simp_all
qed

lemma enemyFrames_snoc:
  "enemyFrames R (fs @ [(tgt, n)]) e = fst (enemyFrame R tgt (enemyFrames R fs e, n))"
  by (simp add: enemyFrames_def)

lemma enemyFrames_invincible:
  "invincibleTimer e = c \<Longrightarrow> int (length fs) \<le> c \<Longrightarrow>
   invincibleTimer (enemyFrames R fs e) = c - int (length fs)"
proof (induction fs rule: rev_induct)
  case Nil
  then show ?case by (simp add: enemyFrames_def)
next
  case (snoc f fs)
  obtain tgt n where f: "f = (tgt, n)" by (cases f)
  from snoc show ?case by (simp add: f enemyFrames_snoc enemyFrame_timing)
qed

lemma enemyFrames_dodgeCooldown:
  "dodgeCooldown e = c \<Longrightarrow> int (length fs) \<le> c \<Longrightarrow>
   dodgeCooldown (enemyFrames R fs e) = c - int (length fs)"
proof (induction fs rule: rev_induct)
  case Nil
  then show ?case by (simp add: enemyFrames_def)
next
  case (snoc f fs)
  obtain tgt n where f: "f = (tgt, n)" by (cases f)
  from snoc show ?case by (simp add: f enemyFrames_snoc enemyFrame_timing)
qed

lemma enemyFrames_dodging:
  assumes "state e = DODGING" "animationTick e = 0" "currentFrame e = 0"
  shows "length fs < 20 \<Longrightarrow>
     state (enemyFrames R fs e) = DODGING \<and>
     animationTick (enemyFrames R fs e) = int (length fs mod 5) \<and>
     currentFrame (enemyFrames R fs e) = int (length fs div 5)"
proof (induction fs rule: rev_induct)
  case Nil
  then show ?case using assms by (simp add: enemyFrames_def)
next
  case (snoc f fs)
  obtain tgt n where f: "f = (tgt, n)" by (cases f)
  let ?t = "enemyFrames R fs e"
  from snoc have ih: "state ?t = DODGING" "animationTick ?t = int (length fs mod 5)"
    "currentFrame ?t = int (length fs div 5)" and len: "length fs < 19" by simp_all
  have nn: "0 \<le> animationTick ?t" "0 \<le> currentFrame ?t" using ih by simp_all
  have lt: "length fs div 5 \<le> 3" using len by simp
  have c: "\<not> (length fs mod 5 = 4 \<and> length fs div 5 = 3)" using len by presburger
  have m: "Suc (length fs) mod 5 = (if length fs mod 5 = 4 then 0 else length fs mod 5 + 1)"
    by presburger
  have dv: "Suc (length fs) div 5 = (if length fs mod 5 = 4 then length fs div 5 + 1 else length fs div 5)"
    by presburger
  have m4: "(4 \<le> length fs mod 5) = (length fs mod 5 = 4)" by presburger
  have d3: "(3 \<le> length fs div 5) = (length fs div 5 = 3)" using lt by linarith
  show ?case
    using enemyFrame_dodging[OF ih(1) nn, of R tgt n] c
    by (simp add: f enemyFrames_snoc ih m dv m4 d3)
qed

lemma enemyFrames_dodge_ends:
  assumes "state e = DODGING" "animationTick e = 0" "currentFrame e = 0" "length fs = 20"
  shows "state (enemyFrames R fs e) = IDLE"
proof -
  obtain gs f where fs: "fs = gs @ [f]" using assms(4) by (cases fs rule: rev_cases) auto
  obtain tgt n where f: "f = (tgt, n)" by (cases f)
  have len: "length gs = 19" using assms(4) fs by simp
  let ?t = "enemyFrames R gs e"
  have ih: "state ?t = DODGING" "animationTick ?t = 4" "currentFrame ?t = 3"
    using enemyFrames_dodging[OF assms(1,2,3), of gs R] len by simp_all
  show ?thesis
    using enemyFrame_dodging[OF ih(1), of R tgt n] ih
    by (simp add: fs f enemyFrames_snoc)
qed

lemma specialHitEnemy_specialOnEnemy:
  "idx < length (enemies g) \<Longrightarrow>
   specialHitEnemy idx g =
     g\<lparr>enemies := (enemies g)[idx := snd (specialOnEnemy (player g) (enemies g ! idx))]\<rparr>"
  by (simp add: specialHitEnemy_def specialOnEnemy_def Let_def split_beta)

lemma takeDamage_blocked: "invincibleTimer e > 0 \<Longrightarrow> takeDamage a d e = (False, e)"
  by (simp add: takeDamage_def)

lemma takeDamage_arms: "fst (takeDamage a d e) \<Longrightarrow> invincibleTimer (snd (takeDamage a d e)) = 30"
  by (auto simp: takeDamage_def Let_def setState_def split: if_splits)

lemma takeDamage_refused: "\<not> fst (takeDamage a d e) \<Longrightarrow> snd (takeDamage a d e) = e"
  by (auto simp: takeDamage_def Let_def split: if_splits)

lemma specialOnEnemy_blocked: "invincibleTimer e > 0 \<Longrightarrow> specialOnEnemy pl e = (False, e)"
  by (simp add: specialOnEnemy_def Let_def takeDamage_blocked)

lemma specialOnEnemy_arms:
  "fst (specialOnEnemy pl e) \<Longrightarrow> invincibleTimer (snd (specialOnEnemy pl e)) = 30"
  by (auto simp: specialOnEnemy_def Let_def takeDamage_arms split: if_splits)

lemma specialOnEnemy_refused: "\<not> fst (specialOnEnemy pl e) \<Longrightarrow> snd (specialOnEnemy pl e) = e"
  by (auto simp: specialOnEnemy_def Let_def takeDamage_refused split: if_splits)

lemma specialFrame_invincible:
  "invincibleTimer (snd (specialFrame R f e)) \<ge> invincibleTimer (snd (specialOnEnemy (fst f) e)) - 1"
  by (cases "snd f") (auto simp: specialFrame_def split_beta enemyFrame_timing)

lemma specialFrame_applied: "fst (specialFrame R f e) = fst (specialOnEnemy (fst f) e)"
  by (simp add: specialFrame_def split_beta)

lemma specialHits_blocked:
  "int (length fs) \<le> invincibleTimer e \<Longrightarrow> specialHits R fs e = 0"
proof (induction fs arbitrary: e)
  case Nil
  then show ?case by simp
next
  case (Cons f fs)
  then have pos: "invincibleTimer e > 0" by simp
  have a: "\<not> fst (specialFrame R f e)"
    by (simp add: specialFrame_applied specialOnEnemy_blocked[OF pos])
  have "invincibleTimer (snd (specialFrame R f e)) \<ge> invincibleTimer e - 1"
    using specialFrame_invincible[where f = f and e = e and R = R] by (simp add: specialOnEnemy_blocked[OF pos])
  then have "int (length fs) \<le> invincibleTimer (snd (specialFrame R f e))"
    using Cons.prems by simp
  then have "specialHits R fs (snd (specialFrame R f e)) = 0" by (rule Cons.IH)
  then show ?case using a by (simp add: split_beta)
qed

lemma specialHits_window: "length fs \<le> 30 \<Longrightarrow> specialHits R fs e \<le> 1"
proof (induction fs arbitrary: e)
  case Nil
  then show ?case by simp
next
  case (Cons f fs)
  show ?case
  proof (cases "fst (specialFrame R f e)")
    case True
    then have "invincibleTimer (snd (specialOnEnemy (fst f) e)) = 30"
      by (simp add: specialFrame_applied specialOnEnemy_arms)
    then have "invincibleTimer (snd (specialFrame R f e)) \<ge> 29"
      using specialFrame_invincible[where f = f and e = e and R = R] by simp
    then have "int (length fs) \<le> invincibleTimer (snd (specialFrame R f e))"
      using Cons.prems by simp
    then have "specialHits R fs (snd (specialFrame R f e)) = 0" by (rule specialHits_blocked)
    then show ?thesis using True by (simp add: split_beta)
  next
    case False
    have "specialHits R fs (snd (specialFrame R f e)) \<le> 1"
      using Cons.prems by (intro Cons.IH) simp
    then show ?thesis using False by (simp add: split_beta)
  qed
qed

text \<open>The flags of the engine through the spawning of enemies.\<close>

lemma spawnReplacements_flags [simp]:
  "isGameOver ((spawnReplacement R ^^ k) g) = isGameOver g"
  "isVictory ((spawnReplacement R ^^ k) g) = isVictory g"
  "isPaused ((spawnReplacement R ^^ k) g) = isPaused g"
  by (induction k) (simp_all add: spawnReplacement_def Let_def)

text \<open>The defensive roll.\<close>

lemma tryDodge_success:
  assumes "fst (tryDodge R n e)"
  shows "fst (snd (tryDodge R n e)) =
      e\<lparr>state := DODGING, currentFrame := 0, animationTick := 0, stateTimer := 25,
        invincibleTimer := 25, dodgeCooldown := 120\<rparr>"
  using assms by (auto simp: tryDodge_def setState_def split: if_splits)

lemma freshEnemy_dodges: "fst (tryDodge (\<lambda>_. 0) 0 freshEnemy)"
  by (simp add: tryDodge_def freshEnemy_def Enemy_new_def)

subsection \<open>The claims\<close>

text \<open>
  C1. For every actor (the player and every enemy of the roster) and after every event of a
  session, health lies between 0 and the maximum health and is 0 exactly when the state
  is \<open>DEAD\<close>; and \<^verbatim>\<open>takeDamage\<close> on a dead actor applies no damage: it returns false and
  leaves the actor as it was.
\<close>

theorem session_health_invariant:
  "allActorsOK (session R w evs) \<and>
   (state e = DEAD \<longrightarrow> takeDamage amount dir e = (False, e))"
proof -
  have "engineOK (session R w evs)" by (rule session_OK)
  then have "allActorsOK (session R w evs)"
    by (simp add: engineOK_def allActorsOK_def enemyOK_def list_all_iff)
  then show ?thesis by (simp add: takeDamage_def)
qed

theorem session_health_invariant_witness:
  "actorOK (player (session (\<lambda>_. 0) 800 [Frame {''KeyD''}, TogglePause, Frame {}])) \<and>
   list_all actorOK (enemies (session (\<lambda>_. 0) 800 [Frame {''KeyD''}, TogglePause, Frame {}])) \<and>
   state ((Player_new 100 450)\<lparr>hp := 0, state := DEAD\<rparr>) = DEAD \<and>
   takeDamage 6 1 ((Player_new 100 450)\<lparr>hp := 0, state := DEAD\<rparr>)
     = (False, (Player_new 100 450)\<lparr>hp := 0, state := DEAD\<rparr>)"
  using session_health_invariant
    [of "\<lambda>_. 0" 800 "[Frame {''KeyD''}, TogglePause, Frame {}]"
        "(Player_new 100 450)\<lparr>hp := 0, state := DEAD\<rparr>" 6 1]
  by (simp add: allActorsOK_def list_all_iff)

text \<open>
  C2. \<^verbatim>\<open>takeDamage\<close> on an actor whose invincibility timer is above 0 or whose state is
  \<open>DEAD\<close> returns false and leaves the actor unchanged. Otherwise it returns true,
  subtracts the amount from health with a floor at 0, sets the state to \<open>HIT\<close>, or to
  \<open>DEAD\<close> when health has reached 0 (restarting the animation cursor), sets the state
  timer to 15 and the invincibility timer to 30, and sets the horizontal velocity to the
  knockback direction times 12 divided by the scale.
\<close>

theorem takeDamage_contract:
  "((invincibleTimer e > 0 \<or> state e = DEAD) \<longrightarrow> takeDamage amount dir e = (False, e)) \<and>
   (\<not> (invincibleTimer e > 0 \<or> state e = DEAD) \<longrightarrow>
      takeDamage amount dir e =
        (True, e\<lparr>hp := max 0 (hp e - amount),
                 state := (if hp e - amount \<le> 0 then DEAD else HIT),
                 currentFrame := 0, animationTick := 0,
                 stateTimer := 15, invincibleTimer := 30,
                 vx := dir * 12 / scale e\<rparr>))"
  by (auto simp: takeDamage_def setState_def Let_def max_def)

theorem takeDamage_contract_witness:
  "invincibleTimer ((Player_new 100 450)\<lparr>invincibleTimer := 12\<rparr>) > 0 \<and>
   takeDamage 6 1 ((Player_new 100 450)\<lparr>invincibleTimer := 12\<rparr>)
     = (False, (Player_new 100 450)\<lparr>invincibleTimer := 12\<rparr>) \<and>
   \<not> (invincibleTimer (Player_new 100 450) > 0 \<or> state (Player_new 100 450) = DEAD) \<and>
   takeDamage 6 (- 1) (Player_new 100 450)
     = (True, (Player_new 100 450)\<lparr>hp := 94, state := HIT, stateTimer := 15,
                                     invincibleTimer := 30, vx := - 12\<rparr>) \<and>
   takeDamage 18 1 ((Enemy_new 0 300 400 ''#ef4444'' False 30 1)\<lparr>hp := 12\<rparr>)
     = (True, (Enemy_new 0 300 400 ''#ef4444'' False 30 1)
                \<lparr>hp := 0, state := DEAD, stateTimer := 15, invincibleTimer := 30, vx := 12\<rparr>)"
  using takeDamage_contract [of "(Player_new 100 450)\<lparr>invincibleTimer := 12\<rparr>" 6 1]
    takeDamage_contract [of "Player_new 100 450" 6 "- 1"]
    takeDamage_contract [of "(Enemy_new 0 300 400 ''#ef4444'' False 30 1)\<lparr>hp := 12\<rparr>" 18 1]
  by (simp add: Player_new_def Enemy_new_def)

text \<open>
  C3 (as the code has it). When \<^verbatim>\<open>handleInput\<close> triggers the special (special unlocked,
  cooldown 0, key E held, player neither hit, dead, charging nor active), the player is
  charging with a charge timer of 45 and the cooldown is 900. The player stays charging
  through the first 44 updates; after the 45th update the special is active with radius
  0. For \<open>j < 60\<close> the radius after update \<open>45 + j\<close> is \<open>min 250 (6.25 * j)\<close>: it grows by
  6.25 on each of the next 40 updates, reaches the maximum radius of 250 at update
  \<open>45 + 40\<close> and stays at 250 through update \<open>45 + 59\<close>. After update \<open>45 + 60\<close> the special
  is neither active nor charging and the radius is 0.
\<close>

theorem special_lifecycle:
  assumes "canTrigger keys p"
  shows "isChargingSpecial (afterTrigger keys p 0) \<and>
         specialChargeTimer (afterTrigger keys p 0) = 45 \<and>
         specialCooldownTimer (afterTrigger keys p 0) = 900 \<and>
         (\<forall>k<45. isChargingSpecial (afterTrigger keys p k) \<and>
                  \<not> specialAttackActive (afterTrigger keys p k)) \<and>
         specialAttackActive (afterTrigger keys p 45) \<and>
         \<not> isChargingSpecial (afterTrigger keys p 45) \<and>
         specialAttackRadius (afterTrigger keys p 45) = 0 \<and>
         (\<forall>j<60. specialAttackActive (afterTrigger keys p (45 + j)) \<and>
                  specialAttackRadius (afterTrigger keys p (45 + j)) = min 250 (6.25 * real j)) \<and>
         (\<forall>j<40. specialAttackRadius (afterTrigger keys p (45 + j))
                    < specialAttackRadius (afterTrigger keys p (45 + j + 1))) \<and>
         (\<forall>j. 40 \<le> j \<and> j < 60 \<longrightarrow> specialAttackRadius (afterTrigger keys p (45 + j)) = 250) \<and>
         \<not> specialAttackActive (afterTrigger keys p 105) \<and>
         \<not> isChargingSpecial (afterTrigger keys p 105) \<and>
         specialAttackRadius (afterTrigger keys p 105) = 0"
proof -
  note A = afterTrigger_active[OF assms]
  have 0: "isChargingSpecial (afterTrigger keys p 0) \<and>
         specialChargeTimer (afterTrigger keys p 0) = 45 \<and>
         specialCooldownTimer (afterTrigger keys p 0) = 900"
    using trigger_fields[OF assms] by (simp add: afterTrigger_def)
  have 1: "\<forall>k<45. isChargingSpecial (afterTrigger keys p k) \<and>
                  \<not> specialAttackActive (afterTrigger keys p k)"
    using afterTrigger_charging[OF assms] by blast
  have 2: "specialAttackActive (afterTrigger keys p 45) \<and>
         \<not> isChargingSpecial (afterTrigger keys p 45) \<and>
         specialAttackRadius (afterTrigger keys p 45) = 0"
    using A[of 0] by simp
  have 3: "\<forall>j<60. specialAttackActive (afterTrigger keys p (45 + j)) \<and>
                  specialAttackRadius (afterTrigger keys p (45 + j)) = min 250 (6.25 * real j)"
    using A by blast
  have 4: "specialAttackRadius (afterTrigger keys p (45 + j))
                    < specialAttackRadius (afterTrigger keys p (45 + j + 1))" if "j < 40" for j
  proof -
    have "specialAttackRadius (afterTrigger keys p (45 + j)) = min 250 (6.25 * real j)"
      using A[of j] that by simp
    moreover have "specialAttackRadius (afterTrigger keys p (45 + (j + 1))) = min 250 (6.25 * real (j + 1))"
      using A[of "j + 1"] that by simp
    moreover have "6.25 * real (j + 1) \<le> 250" using that by simp
    ultimately show ?thesis by (simp add: add.assoc)
  qed
  have 5: "specialAttackRadius (afterTrigger keys p (45 + j)) = 250" if "40 \<le> j \<and> j < 60" for j
  proof -
    have "250 \<le> 6.25 * real j" using that by simp
    then show ?thesis using A[of j] that by simp
  qed
  show ?thesis using 0 1 2 3 4 5 afterTrigger_done[OF assms] by blast
qed

theorem special_lifecycle_witness:
  "canTrigger {''KeyE''} demoPlayer \<and>
   specialCooldownTimer (afterTrigger {''KeyE''} demoPlayer 0) = 900 \<and>
   isChargingSpecial (afterTrigger {''KeyE''} demoPlayer 44) \<and>
   specialAttackActive (afterTrigger {''KeyE''} demoPlayer 45) \<and>
   specialAttackRadius (afterTrigger {''KeyE''} demoPlayer 45) = 0 \<and>
   specialAttackRadius (afterTrigger {''KeyE''} demoPlayer (45 + 8)) = 50 \<and>
   specialAttackRadius (afterTrigger {''KeyE''} demoPlayer (45 + 39))
     < specialAttackRadius (afterTrigger {''KeyE''} demoPlayer (45 + 39 + 1)) \<and>
   specialAttackRadius (afterTrigger {''KeyE''} demoPlayer (45 + 59)) = 250 \<and>
   \<not> specialAttackActive (afterTrigger {''KeyE''} demoPlayer 105)"
proof -
  note T = special_lifecycle[OF demo_canTrigger]
  from T have c: "\<forall>k<45. isChargingSpecial (afterTrigger {''KeyE''} demoPlayer k) \<and>
                  \<not> specialAttackActive (afterTrigger {''KeyE''} demoPlayer k)"
    by (elim conjE)
  from T have r: "\<forall>j<60. specialAttackActive (afterTrigger {''KeyE''} demoPlayer (45 + j)) \<and>
      specialAttackRadius (afterTrigger {''KeyE''} demoPlayer (45 + j)) = min 250 (6.25 * real j)"
    by (elim conjE)
  from T have i: "\<forall>j<40. specialAttackRadius (afterTrigger {''KeyE''} demoPlayer (45 + j))
                    < specialAttackRadius (afterTrigger {''KeyE''} demoPlayer (45 + j + 1))"
    by (elim conjE)
  from T have t: "\<forall>j. 40 \<le> j \<and> j < 60 \<longrightarrow>
      specialAttackRadius (afterTrigger {''KeyE''} demoPlayer (45 + j)) = 250"
    by (elim conjE)
  show ?thesis
    using T demo_canTrigger c[rule_format, of 44] r[rule_format, of 8] i[rule_format, of 39]
      t[rule_format, of 59]
    by simp
qed

text \<open>
  C3 as stated fails: the radius does not strictly increase on every tick until tick
  \<open>45 + 60\<close>. After updates \<open>45 + 40\<close> and \<open>45 + 41\<close> the special is still active and the
  radius is 250 both times.
\<close>

theorem special_radius_plateau:
  "specialAttackRadius (afterTrigger {''KeyE''} demoPlayer (45 + 40)) = 250 \<and>
   specialAttackRadius (afterTrigger {''KeyE''} demoPlayer (45 + 41)) = 250 \<and>
   specialAttackActive (afterTrigger {''KeyE''} demoPlayer (45 + 41))"
  using afterTrigger_active[OF demo_canTrigger, of 40] afterTrigger_active[OF demo_canTrigger, of 41]
  by simp

text \<open>
  C6. \<^verbatim>\<open>getAttackHitbox\<close> returns a rectangle exactly when the state is an attacking state
  (jab or straight) and the current frame is one of the active frames that
  \<open>ANIMATION_DATA\<close> declares for that state. The jab has 4 frames and the active frames 1
  and 2, so in state jab the hitbox exists exactly on frames 1 and 2; in every other
  state but the two attacks there is no hitbox.
\<close>

theorem attack_hitbox_window:
  "(getAttackHitbox e \<noteq> None \<longleftrightarrow>
      (state e = ATTACKING_JAB \<or> state e = ATTACKING_STRAIGHT) \<and>
      (\<exists>active. activeFrames (ANIMATION_DATA (state e)) = Some active \<and>
                currentFrame e \<in> set active)) \<and>
   frames (ANIMATION_DATA ATTACKING_JAB) = 4 \<and>
   activeFrames (ANIMATION_DATA ATTACKING_JAB) = Some [1, 2] \<and>
   (state e = ATTACKING_JAB \<longrightarrow>
      (getAttackHitbox e \<noteq> None \<longleftrightarrow> currentFrame e = 1 \<or> currentFrame e = 2)) \<and>
   (state e \<in> {IDLE, WALKING, WINDING_UP, DODGING, HIT, DEAD} \<longrightarrow> getAttackHitbox e = None)"
  by (cases "state e") (auto simp: getAttackHitbox_def Let_def)

theorem attack_hitbox_window_witness:
  "state ((Player_new 100 450)\<lparr>state := ATTACKING_JAB, currentFrame := 1\<rparr>) = ATTACKING_JAB \<and>
   getAttackHitbox ((Player_new 100 450)\<lparr>state := ATTACKING_JAB, currentFrame := 1\<rparr>) \<noteq> None \<and>
   getAttackHitbox ((Player_new 100 450)\<lparr>state := ATTACKING_JAB, currentFrame := 3\<rparr>) = None \<and>
   state ((Player_new 100 450)\<lparr>state := DODGING, currentFrame := 1\<rparr>)
     \<in> {IDLE, WALKING, WINDING_UP, DODGING, HIT, DEAD} \<and>
   getAttackHitbox ((Player_new 100 450)\<lparr>state := DODGING, currentFrame := 1\<rparr>) = None"
  using attack_hitbox_window [of "(Player_new 100 450)\<lparr>state := ATTACKING_JAB, currentFrame := 1\<rparr>"]
    attack_hitbox_window [of "(Player_new 100 450)\<lparr>state := ATTACKING_JAB, currentFrame := 3\<rparr>"]
    attack_hitbox_window [of "(Player_new 100 450)\<lparr>state := DODGING, currentFrame := 1\<rparr>"]
  by (simp add: Player_new_def)

text \<open>
  C9. In a running session (not over, not won, not paused), a frame that starts with the
  hitstop timer above 0 only decrements that timer: every other field of the engine, the
  player, the roster with every enemy and projectile, the score, the streak, the
  multiplier, the phase flags and the count of random draws, is as before, so no input,
  AI, physics or collision code has run.
\<close>

theorem hitstop_freezes_frame:
  "\<not> isGameOver g \<Longrightarrow> \<not> isVictory g \<Longrightarrow> \<not> isPaused g \<Longrightarrow> hitstopTimer g > 0 \<Longrightarrow>
   GameEngine_update keys R g = g\<lparr>hitstopTimer := hitstopTimer g - 1\<rparr>"
  by (simp add: GameEngine_update_def)

theorem hitstop_freezes_frame_witness:
  "\<not> isGameOver ((GameEngine_new (\<lambda>_. 0) 800)\<lparr>hitstopTimer := 8\<rparr>) \<and>
   \<not> isVictory ((GameEngine_new (\<lambda>_. 0) 800)\<lparr>hitstopTimer := 8\<rparr>) \<and>
   \<not> isPaused ((GameEngine_new (\<lambda>_. 0) 800)\<lparr>hitstopTimer := 8\<rparr>) \<and>
   hitstopTimer ((GameEngine_new (\<lambda>_. 0) 800)\<lparr>hitstopTimer := 8\<rparr>) > 0 \<and>
   GameEngine_update {''KeyJ''} (\<lambda>_. 0) ((GameEngine_new (\<lambda>_. 0) 800)\<lparr>hitstopTimer := 8\<rparr>)
     = (GameEngine_new (\<lambda>_. 0) 800)\<lparr>hitstopTimer := 7\<rparr>"
proof -
  have f: "\<not> isGameOver (GameEngine_new R w)" "\<not> isVictory (GameEngine_new R w)"
    "\<not> isPaused (GameEngine_new R w)" for R w
    by (simp_all add: GameEngine_new_def spawnEnemies_def Let_def spawnReplacements_flags)
  show ?thesis
    using hitstop_freezes_frame
      [of "(GameEngine_new (\<lambda>_. 0) 800)\<lparr>hitstopTimer := 8\<rparr>" "{''KeyJ''}" "\<lambda>_. 0"] f
    by simp
qed

text \<open>
  C8 (as the code has it). \<^verbatim>\<open>tryDodge\<close> succeeds exactly when the dodge cooldown is not
  above 0, the enemy is neither dead nor already dodging, and the draw of
  \<^verbatim>\<open>Math.random()\<close> is below 0.12 (0.35 for a boss); a draw is uniform on the unit
  interval, so these are the probabilities. When it fails it leaves the enemy unchanged.
  When it succeeds the enemy is in state \<open>DODGING\<close> at frame 0 with state timer 25,
  invincibility timer 25 and dodge cooldown 120. Over the following frames of the enemy
  (any players, any draws): the state is \<open>DODGING\<close> after each of the first 19 frames and
  \<open>IDLE\<close> after the 20th, when the dodge animation (4 frames of 5 ticks) has run out; the
  invincibility timer after \<open>k \<le> 25\<close> frames is \<open>25 - k\<close>, and \<^verbatim>\<open>takeDamage\<close> is refused
  after each of the first 24 frames; the dodge cooldown after \<open>k \<le> 120\<close> frames is
  \<open>120 - k\<close>.
\<close>

theorem tryDodge_contract:
  "(fst (tryDodge R n e) \<longleftrightarrow>
      dodgeCooldown e \<le> 0 \<and> state e \<noteq> DEAD \<and> state e \<noteq> DODGING \<and>
      R n < (if isBoss e then 0.35 else 0.12)) \<and>
   (\<not> fst (tryDodge R n e) \<longrightarrow> fst (snd (tryDodge R n e)) = e) \<and>
   (fst (tryDodge R n e) \<longrightarrow>
      fst (snd (tryDodge R n e)) =
        e\<lparr>state := DODGING, currentFrame := 0, animationTick := 0, stateTimer := 25,
          invincibleTimer := 25, dodgeCooldown := 120\<rparr> \<and>
      (\<forall>fs. length fs < 20 \<longrightarrow>
         state (enemyFrames R' fs (fst (snd (tryDodge R n e)))) = DODGING) \<and>
      (\<forall>fs. length fs = 20 \<longrightarrow>
         state (enemyFrames R' fs (fst (snd (tryDodge R n e)))) = IDLE) \<and>
      (\<forall>fs. length fs \<le> 25 \<longrightarrow>
         invincibleTimer (enemyFrames R' fs (fst (snd (tryDodge R n e)))) = 25 - int (length fs)) \<and>
      (\<forall>fs a d. length fs < 25 \<longrightarrow>
         \<not> fst (takeDamage a d (enemyFrames R' fs (fst (snd (tryDodge R n e)))))) \<and>
      (\<forall>fs. length fs \<le> 120 \<longrightarrow>
         dodgeCooldown (enemyFrames R' fs (fst (snd (tryDodge R n e)))) = 120 - int (length fs)))"
proof -
  have 1: "fst (tryDodge R n e) \<longleftrightarrow>
      dodgeCooldown e \<le> 0 \<and> state e \<noteq> DEAD \<and> state e \<noteq> DODGING \<and>
      R n < (if isBoss e then 0.35 else 0.12)"
    by (auto simp: tryDodge_def)
  have 2: "\<not> fst (tryDodge R n e) \<longrightarrow> fst (snd (tryDodge R n e)) = e"
    by (auto simp: tryDodge_def)
  have 3: ?thesis if ok: "fst (tryDodge R n e)"
  proof -
    let ?d = "fst (snd (tryDodge R n e))"
    note d = tryDodge_success[OF ok]
    have s: "state ?d = DODGING" "animationTick ?d = 0" "currentFrame ?d = 0"
      "invincibleTimer ?d = 25" "dodgeCooldown ?d = 120"
      by (simp_all add: d)
    have inv: "invincibleTimer (enemyFrames R' fs ?d) = 25 - int (length fs)"
      if "length fs \<le> 25" for fs
      using enemyFrames_invincible[OF s(4), of fs R'] that by simp
    have blocked: "\<not> fst (takeDamage a d (enemyFrames R' fs ?d))" if "length fs < 25" for fs a d
    proof -
      have "invincibleTimer (enemyFrames R' fs ?d) > 0" using inv[of fs] that by simp
      then show ?thesis by (simp add: takeDamage_blocked)
    qed
    have cd: "dodgeCooldown (enemyFrames R' fs ?d) = 120 - int (length fs)"
      if "length fs \<le> 120" for fs
      using enemyFrames_dodgeCooldown[OF s(5), of fs R'] that by simp
    show ?thesis
      using 1 ok d enemyFrames_dodging[OF s(1,2,3), of _ R']
        enemyFrames_dodge_ends[OF s(1,2,3), of _ R'] inv blocked cd
      by blast
  qed
  show ?thesis
  proof (cases "fst (tryDodge R n e)")
    case True
    then show ?thesis by (rule 3)
  next
    case False
    then show ?thesis using 1 2 by blast
  qed
qed

theorem tryDodge_contract_witness:
  "fst (tryDodge (\<lambda>_. 0) 0 freshEnemy) \<and>
   state (fst (snd (tryDodge (\<lambda>_. 0) 0 freshEnemy))) = DODGING \<and>
   stateTimer (fst (snd (tryDodge (\<lambda>_. 0) 0 freshEnemy))) = 25 \<and>
   invincibleTimer (fst (snd (tryDodge (\<lambda>_. 0) 0 freshEnemy))) = 25 \<and>
   dodgeCooldown (fst (snd (tryDodge (\<lambda>_. 0) 0 freshEnemy))) = 120 \<and>
   state (enemyFrames (\<lambda>_. 0) (replicate 19 (Player_new 100 450, 0))
           (fst (snd (tryDodge (\<lambda>_. 0) 0 freshEnemy)))) = DODGING \<and>
   state (enemyFrames (\<lambda>_. 0) (replicate 20 (Player_new 100 450, 0))
           (fst (snd (tryDodge (\<lambda>_. 0) 0 freshEnemy)))) = IDLE \<and>
   \<not> fst (tryDodge (\<lambda>_. 1) 0 freshEnemy) \<and>
   fst (snd (tryDodge (\<lambda>_. 1) 0 freshEnemy)) = freshEnemy \<and>
   dodgeCooldown (freshEnemy\<lparr>dodgeCooldown := 7\<rparr>) > 0 \<and>
   \<not> fst (tryDodge (\<lambda>_. 0) 0 (freshEnemy\<lparr>dodgeCooldown := 7\<rparr>)) \<and>
   fst (snd (tryDodge (\<lambda>_. 0) 0 (freshEnemy\<lparr>dodgeCooldown := 7\<rparr>))) = freshEnemy\<lparr>dodgeCooldown := 7\<rparr>"
proof -
  note T = tryDodge_contract[of "\<lambda>_. 0" 0 freshEnemy "\<lambda>_. 0"]
  from T freshEnemy_dodges have
    a: "\<forall>fs. length fs < 20 \<longrightarrow>
         state (enemyFrames (\<lambda>_. 0) fs (fst (snd (tryDodge (\<lambda>_. 0) 0 freshEnemy)))) = DODGING"
    and b: "\<forall>fs. length fs = 20 \<longrightarrow>
         state (enemyFrames (\<lambda>_. 0) fs (fst (snd (tryDodge (\<lambda>_. 0) 0 freshEnemy)))) = IDLE"
    and c: "fst (snd (tryDodge (\<lambda>_. 0) 0 freshEnemy)) =
        freshEnemy\<lparr>state := DODGING, currentFrame := 0, animationTick := 0, stateTimer := 25,
          invincibleTimer := 25, dodgeCooldown := 120\<rparr>"
    by blast+
  have n1: "\<not> fst (tryDodge (\<lambda>_. 1) 0 freshEnemy)"
    by (simp add: tryDodge_def freshEnemy_def Enemy_new_def)
  have n2: "\<not> fst (tryDodge (\<lambda>_. 0) 0 (freshEnemy\<lparr>dodgeCooldown := 7\<rparr>))"
    by (simp add: tryDodge_def freshEnemy_def Enemy_new_def)
  show ?thesis
    using freshEnemy_dodges c
      a[rule_format, of "replicate 19 (Player_new 100 450, 0)"]
      b[rule_format, of "replicate 20 (Player_new 100 450, 0)"]
      n1 n2 tryDodge_contract[of "\<lambda>_. 1" 0 freshEnemy "\<lambda>_. 0"]
      tryDodge_contract[of "\<lambda>_. 0" 0 "freshEnemy\<lparr>dodgeCooldown := 7\<rparr>" "\<lambda>_. 0"]
    by simp
qed

text \<open>
  C8 as stated fails: after a successful dodge the enemy is not in state \<open>DODGING\<close> for 25
  ticks. After 20 frames it is back in \<open>IDLE\<close>, with 5 ticks of invincibility left.
\<close>

theorem dodge_state_ends_early:
  "fst (tryDodge (\<lambda>_. 0) 0 freshEnemy) \<and>
   state (enemyFrames (\<lambda>_. 0) (replicate 20 (Player_new 100 450, 0))
           (fst (snd (tryDodge (\<lambda>_. 0) 0 freshEnemy)))) = IDLE \<and>
   invincibleTimer (enemyFrames (\<lambda>_. 0) (replicate 20 (Player_new 100 450, 0))
           (fst (snd (tryDodge (\<lambda>_. 0) 0 freshEnemy)))) = 5"
proof -
  let ?d = "fst (snd (tryDodge (\<lambda>_. 0) 0 freshEnemy))"
  note d = tryDodge_success[OF freshEnemy_dodges]
  have s: "state ?d = DODGING" "animationTick ?d = 0" "currentFrame ?d = 0"
      "invincibleTimer ?d = 25"
    by (simp_all add: d)
  show ?thesis
    using freshEnemy_dodges
      enemyFrames_dodge_ends[OF s(1,2,3), of "replicate 20 (Player_new 100 450, 0)" "\<lambda>_. 0"]
      enemyFrames_invincible[OF s(4), of "replicate 20 (Player_new 100 450, 0)" "\<lambda>_. 0"]
    by simp
qed

text \<open>
  C10. Every successful \<^verbatim>\<open>takeDamage\<close> sets the invincibility timer to 30; the area
  check of the special goes through \<^verbatim>\<open>takeDamage\<close> and changes nothing on an enemy whose
  invincibility timer is above 0; and the callback of the special loop changes only its
  own enemy, in that way. So in any run of at most 30 consecutive frames with the area
  check made in each of them, from any state of the enemy, whatever the players, the
  draws, and the frames in which the enemy loop passes over the enemy, the special
  damages the enemy in at most one frame.
\<close>

theorem special_once_per_window:
  "(fst (takeDamage amount dir e) \<longrightarrow> invincibleTimer (snd (takeDamage amount dir e)) = 30) \<and>
   (invincibleTimer e > 0 \<longrightarrow> specialOnEnemy pl e = (False, e)) \<and>
   (idx < length (enemies g) \<longrightarrow>
      specialHitEnemy idx g =
        g\<lparr>enemies := (enemies g)[idx := snd (specialOnEnemy (player g) (enemies g ! idx))]\<rparr>) \<and>
   (length fs \<le> 30 \<longrightarrow> specialHits R fs e \<le> 1)"
  using takeDamage_arms[of amount dir e] specialOnEnemy_blocked[of e pl]
    specialHitEnemy_specialOnEnemy[of idx g] specialHits_window[of fs R e]
  by blast

theorem special_once_per_window_witness:
  "length ((blastingPlayer, None) # replicate 29 (blastingPlayer, Some (blastingPlayer, 0))) \<le> 30 \<and>
   specialHits (\<lambda>_. 0)
     ((blastingPlayer, None) # replicate 29 (blastingPlayer, Some (blastingPlayer, 0))) freshEnemy = 1 \<and>
   fst (takeDamage 15 1 freshEnemy) \<and>
   invincibleTimer (snd (takeDamage 15 1 freshEnemy)) = 30"
proof -
  let ?fs = "(blastingPlayer, None) # replicate 29 (blastingPlayer, Some (blastingPlayer, 0))"
  have hit: "fst (specialOnEnemy blastingPlayer freshEnemy)"
    by (simp add: specialOnEnemy_def blastingPlayer_def freshEnemy_def Enemy_new_def Player_new_def
        takeDamage_def Let_def)
  then have "specialHits (\<lambda>_. 0) ?fs freshEnemy \<ge> 1"
    by (simp add: specialFrame_def split_beta)
  moreover have td: "fst (takeDamage 15 1 freshEnemy)"
    by (simp add: takeDamage_def freshEnemy_def Enemy_new_def Let_def)
  ultimately show ?thesis
    using special_once_per_window[of 15 1 freshEnemy blastingPlayer 0 "GameEngine_new (\<lambda>_. 0) 800" ?fs "\<lambda>_. 0"]
    by simp
qed


end
